theory Spec2Isabelle
  imports Main "HOL-Library.Char_ord" "HOL-Library.List_Lexorder" "HOL-Library.Word"
begin

section \<open>Errors, states and the collaborators of the container\<close>

text \<open>
  The development embeds \<^verbatim>\<open>container.cpp\<close>: the class \<^verbatim>\<open>TContainer\<close>, the data table
  \<^verbatim>\<open>DataSpec\<close> and the registry \<^verbatim>\<open>TContainerHolder\<close>. Member functions become functions
  from the object before the call to the result and the object after it. A call that
  dereferences a null pointer has no result: such functions return an \<open>option\<close> and the
  dereference is the value \<open>None\<close>. Calls of \<^verbatim>\<open>TLogger\<close> are left out: they change
  nothing the container reads.
\<close>

text \<open>
  Modelled from the spec: the enumeration \<^verbatim>\<open>EError\<close> is declared in a header that is not
  among the sources; the kinds are those of the error-handling section, with \<open>Success\<close>
  for \<^verbatim>\<open>TError::Success()\<close>.
\<close>

datatype EError =
  Success | Unknown | InvalidValue | InvalidState | InvalidProperty | InvalidData
  | NoSpace | Busy | Permission

text \<open>A \<^verbatim>\<open>TError\<close> is a kind and a message; \<^verbatim>\<open>if (error)\<close> tests the kind.\<close>

datatype TError = TError EError string

definition TError_Success :: TError where
  "TError_Success = TError Success []"

fun GetError :: "TError \<Rightarrow> EError" where
  "GetError (TError k m) = k"

fun GetMsg :: "TError \<Rightarrow> string" where
  "GetMsg (TError k m) = m"

definition failed :: "TError \<Rightarrow> bool" where
  "failed e = (GetError e \<noteq> Success)"

text \<open>The four states, in the order the source lists them in \<^verbatim>\<open>DataSpec\<close>.\<close>

datatype EContainerState = Stopped | Dead | Running | Paused

text \<open>
  The three subsystems the container binds to, and a cgroup handle: the subsystem and
  the path below the root of its hierarchy.
\<close>

datatype TSubsystem = CpuacctSubsystem | MemorySubsystem | FreezerSubsystem

record TCgroup =
  Subsys :: TSubsystem
  Relpath :: "string list"

text \<open>
  Modelled from the spec: the constants \<^verbatim>\<open>ROOT_CONTAINER\<close> and \<^verbatim>\<open>PORTO_ROOT_CGROUP\<close> are
  declared in headers that are not among the sources; the spec gives the reserved name
  \<open>ROOT\<close> and the path component \<open>porto\<close>. No general theorem below unfolds them.
\<close>

definition ROOT_CONTAINER :: string where
  "ROOT_CONTAINER = ''ROOT''"

definition PORTO_ROOT_CGROUP :: string where
  "PORTO_ROOT_CGROUP = ''porto''"

definition SIGKILL :: int where
  "SIGKILL = 9"

definition SIGTERM :: int where
  "SIGTERM = 15"

text \<open>
  Modelled from the spec: the class \<^verbatim>\<open>TTask\<close> (task.hpp) is not among the sources. A task
  carries what it was built from (the environment and the cgroup leaves), its pid (0
  before it is started), whether it is running, and its exit status with the two
  components \<open>Error\<close> and \<open>Status\<close>. \<^verbatim>\<open>DeliverExitStatus(status)\<close> records the status and
  moves the task from running to exited.
\<close>

record TExitStatus =
  Error :: int
  Status :: int

record TTaskEnv =
  Command :: string
  Cwd :: string
  Root :: string
  User :: string
  Group :: string
  Environ :: string

record TTask =
  Env :: TTaskEnv
  Cgroups :: "TCgroup list"
  Pid :: int
  IsRunning :: bool
  ExitStatus :: TExitStatus

definition NewTask :: "TTaskEnv \<Rightarrow> TCgroup list \<Rightarrow> TTask" where
  "NewTask taskEnv cgroups =
     \<lparr>Env = taskEnv, Cgroups = cgroups, Pid = 0, IsRunning = False,
      ExitStatus = \<lparr>Error = 0, Status = 0\<rparr>\<rparr>"

definition Task_DeliverExitStatus :: "int \<Rightarrow> TTask \<Rightarrow> TTask" where
  "Task_DeliverExitStatus status t =
     t\<lparr>ExitStatus := (ExitStatus t)\<lparr>Status := status\<rparr>, IsRunning := False\<rparr>"

text \<open>
  Modelled from the spec: the property store \<^verbatim>\<open>TContainerSpec\<close> is not among the sources.
  It maps every property name to its current string (\<^verbatim>\<open>Get\<close>) and holds the internal
  slots, of which \<^verbatim>\<open>root_pid\<close> is one. A persisted node is a list of key-value pairs.
\<close>

record TContainerSpec =
  Data :: "string \<Rightarrow> string"
  Internal :: "string \<rightharpoonup> string"

type_synonym TNode = "(string \<times> string) list"

definition SetInternal :: "string \<Rightarrow> string \<Rightarrow> TContainerSpec \<Rightarrow> TContainerSpec" where
  "SetInternal name v s = s\<lparr>Internal := (Internal s)(name \<mapsto> v)\<rparr>"

text \<open>
  The container object: the members \<^verbatim>\<open>container.cpp\<close> reads and writes.
\<close>

record TContainer =
  Name :: string
  State :: EContainerState
  MaybeReturnedOk :: bool
  Spec :: TContainerSpec
  LeafCgroups :: "TSubsystem \<rightharpoonup> TCgroup"
  Task :: "TTask option"

text \<open>
  What the rest of the daemon and the kernel answer during one call. Each field is the
  result of one call site of the source whose callee is not among the sources: the
  answer is a parameter, so a theorem for every environment holds whatever the
  collaborator does. \<open>SubsysAddr\<close> stands for the addresses of the three subsystem
  objects: \<^verbatim>\<open>LeafCgroups\<close> is a \<^verbatim>\<open>std::map\<close> keyed by \<^verbatim>\<open>shared_ptr\<close>, iterated in address order.
  \<open>GetTasks\<close> takes the number of the call inside \<^verbatim>\<open>KillAll\<close> (0 or 1).
\<close>

record TEnv =
  SubsysAddr :: "TSubsystem \<Rightarrow> nat"
  CgroupCreate :: "TCgroup \<Rightarrow> TError"
  UseHierarchy :: "TCgroup \<Rightarrow> TError"
  HasKnob :: "TCgroup \<Rightarrow> string \<Rightarrow> bool"
  SetKnobValue :: "TCgroup \<Rightarrow> string \<Rightarrow> string \<Rightarrow> TError"
  GetTasks :: "nat \<Rightarrow> TCgroup \<Rightarrow> TError"
  GetProcesses :: "TCgroup \<Rightarrow> int list"
  Freeze :: "TCgroup \<Rightarrow> TError"
  Unfreeze :: "TCgroup \<Rightarrow> TError"
  Usage :: "TCgroup \<Rightarrow> TError \<times> 64 word"
  TaskEnvPrepare :: "TTaskEnv \<Rightarrow> TError"
  TaskStart :: "TTask \<Rightarrow> TError \<times> TTask"
  TaskRestore :: "TTask \<Rightarrow> int \<Rightarrow> TError \<times> TTask"
  TaskRotate :: "TTask \<Rightarrow> TTask"
  TaskStdout :: "TTask \<Rightarrow> string"
  TaskStderr :: "TTask \<Rightarrow> string"
  SpecInit :: "string \<Rightarrow> TContainerSpec"
  SpecCreate :: "TContainerSpec \<Rightarrow> TError"
  SpecRestore :: "TContainerSpec \<Rightarrow> TNode \<Rightarrow> TError \<times> TContainerSpec"
  SpecSet :: "TContainerSpec \<Rightarrow> string \<Rightarrow> string \<Rightarrow> TError \<times> TContainerSpec"
  SpecIsDynamic :: "string \<Rightarrow> bool"
  StringToInt :: "string \<Rightarrow> int option"

text \<open>
  The calls a member function makes on the kernel and on the task, in the order it makes
  them: the third component of a result. A call is listed whether it succeeds or not.
\<close>

datatype TAction =
  ActCreate TCgroup
  | ActUseHierarchy TCgroup
  | ActSetKnobValue TCgroup string string
  | ActKill TCgroup int
  | ActSleepWhileNotEmpty TCgroup nat
  | ActFreeze TCgroup
  | ActUnfreeze TCgroup
  | ActTaskStart
  | ActTaskRestore int
  | ActTaskRotate int
  | ActAckExitStatus int

section \<open>std::to_string\<close>

fun digits :: "nat \<Rightarrow> string" where
  "digits n =
     (if n < 10 then [char_of (48 + n)] else digits (n div 10) @ [char_of (48 + n mod 10)])"

declare digits.simps [simp del]

definition to_string :: "int \<Rightarrow> string" where
  "to_string i = (if i < 0 then CHR ''-'' # digits (nat (- i)) else digits (nat i))"

section \<open>TContainer\<close>

text \<open>
  Modelled from the spec: the constructor \<^verbatim>\<open>TContainer(name)\<close> is in container.hpp, which
  is not among the sources; a new container is \<open>Stopped\<close>, has no task and no leaves.
\<close>

definition NewContainer :: "TEnv \<Rightarrow> string \<Rightarrow> TContainer" where
  "NewContainer env name =
     \<lparr>Name = name, State = Stopped, MaybeReturnedOk = False, Spec = SpecInit env name,
      LeafCgroups = Map.empty, Task = None\<rparr>"

text \<open>
  \<^verbatim>\<open>CheckState\<close> (lines 127-132): a \<open>Running\<close> state whose task is missing or not running
  is first set to \<open>Stopped\<close>; the result is the comparison and the object after it.
\<close>

definition CheckState :: "TContainer \<Rightarrow> EContainerState \<Rightarrow> bool \<times> TContainer" where
  "CheckState c expected =
     (let c' = (if State c = Running \<and> (case Task c of None \<Rightarrow> True | Some t \<Rightarrow> \<not> IsRunning t)
                then c\<lparr>State := Stopped\<rparr> else c)
      in (State c' = expected, c'))"

definition GetName :: "TContainer \<Rightarrow> string" where
  "GetName c = Name c"

definition IsRoot :: "TContainer \<Rightarrow> bool" where
  "IsRoot c = (Name c = ROOT_CONTAINER)"

text \<open>
  \<^verbatim>\<open>GetLeafCgroup\<close> (lines 468-476): the recorded leaf, or a handle for
  \<^verbatim>\<open>root/PORTO_ROOT_CGROUP\<close> (the root container) or \<^verbatim>\<open>root/PORTO_ROOT_CGROUP/Name\<close>.
  \<^verbatim>\<open>GetChild\<close> builds a handle, so the result is never null.
\<close>

definition GetLeafCgroup :: "TContainer \<Rightarrow> TSubsystem \<Rightarrow> TCgroup" where
  "GetLeafCgroup c subsys =
     (case LeafCgroups c subsys of
        Some cg \<Rightarrow> cg
      | None \<Rightarrow>
          if Name c = ROOT_CONTAINER then \<lparr>Subsys = subsys, Relpath = [PORTO_ROOT_CGROUP]\<rparr>
          else \<lparr>Subsys = subsys, Relpath = [PORTO_ROOT_CGROUP, Name c]\<rparr>)"

definition GetRootCgroup :: "TSubsystem \<Rightarrow> TCgroup" where
  "GetRootCgroup subsys = \<lparr>Subsys = subsys, Relpath = []\<rparr>"

definition Processes :: "TEnv \<Rightarrow> TContainer \<Rightarrow> int list" where
  "Processes env c = GetProcesses env (GetLeafCgroup c FreezerSubsystem)"

definition IsAlive :: "TEnv \<Rightarrow> TContainer \<Rightarrow> bool" where
  "IsAlive env c = (if IsRoot c then True else Processes env c \<noteq> [])"

text \<open>
  The values of \<^verbatim>\<open>LeafCgroups\<close> in the order \<^verbatim>\<open>for (auto cg : LeafCgroups)\<close> visits them:
  the keys sorted by the address of the subsystem object.
\<close>

definition Leaves :: "TEnv \<Rightarrow> TContainer \<Rightarrow> TCgroup list" where
  "Leaves env c =
     List.map_filter (LeafCgroups c)
       (sort_key (SubsysAddr env) [CpuacctSubsystem, MemorySubsystem, FreezerSubsystem])"

text \<open>The loop of lines 166-172: create each leaf, stop at the first failure.\<close>

fun CreateAll :: "TEnv \<Rightarrow> TCgroup list \<Rightarrow> TError \<times> TAction list" where
  "CreateAll env [] = (TError_Success, [])"
| "CreateAll env (cg # cgs) =
     (let ret = CgroupCreate env cg in
      if failed ret then (ret, [ActCreate cg])
      else (case CreateAll env cgs of (r, t) \<Rightarrow> (r, ActCreate cg # t)))"

text \<open>Lines 189-194 of \<^verbatim>\<open>PrepareCgroups\<close>: the write of \<^verbatim>\<open>memory.limit_in_bytes\<close>.\<close>

definition SetMemoryLimit ::
  "TEnv \<Rightarrow> TContainer \<Rightarrow> TCgroup \<Rightarrow> TAction list \<Rightarrow> TError \<times> TContainer \<times> TAction list" where
  "SetMemoryLimit env c memcg t =
     (let v = Data (Spec c) ''memory_limit'';
          error = SetKnobValue env memcg ''memory.limit_in_bytes'' v;
          t' = t @ [ActSetKnobValue memcg ''memory.limit_in_bytes'' v]
      in if failed error then (error, c, t') else (TError_Success, c, t'))"

text \<open>
  \<^verbatim>\<open>PrepareCgroups\<close> (lines 161-195). In \<^verbatim>\<open>LeafCgroups[s] = GetLeafCgroup(s)\<close> the right-hand
  side is evaluated before \<^verbatim>\<open>operator[]\<close> inserts the key (the order C++17 fixes; in the
  other order \<^verbatim>\<open>GetLeafCgroup\<close> would find the null entry just inserted). Only a failing
  \<^verbatim>\<open>Create\<close> clears \<^verbatim>\<open>LeafCgroups\<close>; the returns after \<^verbatim>\<open>UseHierarchy\<close> and the two knob
  writes leave the map as it is.
\<close>

definition PrepareCgroups :: "TEnv \<Rightarrow> TContainer \<Rightarrow> TError \<times> TContainer \<times> TAction list" where
  "PrepareCgroups env c =
     (let c1 = c\<lparr>LeafCgroups := (LeafCgroups c)(CpuacctSubsystem \<mapsto> GetLeafCgroup c CpuacctSubsystem)\<rparr>;
          c2 = c1\<lparr>LeafCgroups := (LeafCgroups c1)(MemorySubsystem \<mapsto> GetLeafCgroup c1 MemorySubsystem)\<rparr>;
          c3 = c2\<lparr>LeafCgroups := (LeafCgroups c2)(FreezerSubsystem \<mapsto> GetLeafCgroup c2 FreezerSubsystem)\<rparr>
      in case CreateAll env (Leaves env c3) of
        (ret, t1) \<Rightarrow>
          if failed ret then (ret, c3\<lparr>LeafCgroups := Map.empty\<rparr>, t1)
          else
            (let memroot = GetRootCgroup MemorySubsystem;
                 memcg = GetLeafCgroup c3 MemorySubsystem;
                 error = UseHierarchy env memcg;
                 t2 = t1 @ [ActUseHierarchy memcg]
             in if failed error then (error, c3, t2)
                else if HasKnob env memroot ''memory.low_limit_in_bytes'' then
                  (let g = Data (Spec c3) ''memory_guarantee'';
                       error' = SetKnobValue env memcg ''memory.low_limit_in_bytes'' g;
                       t3 = t2 @ [ActSetKnobValue memcg ''memory.low_limit_in_bytes'' g]
                   in if failed error' then (error', c3, t3)
                      else SetMemoryLimit env c3 memcg t3)
                else SetMemoryLimit env c3 memcg t2))"

text \<open>\<^verbatim>\<open>PrepareTask\<close> (lines 197-208).\<close>

definition PrepareTask :: "TEnv \<Rightarrow> TContainer \<Rightarrow> TError \<times> TContainer" where
  "PrepareTask env c =
     (let taskEnv = \<lparr>Command = Data (Spec c) ''command'', Cwd = Data (Spec c) ''cwd'',
                      Root = Data (Spec c) ''root'', User = Data (Spec c) ''user'',
                      Group = Data (Spec c) ''group'', Environ = Data (Spec c) ''env''\<rparr>;
          error = TaskEnvPrepare env taskEnv
      in if failed error then (error, c)
         else (TError_Success, c\<lparr>Task := Some (NewTask taskEnv (Leaves env c))\<rparr>))"

definition Create :: "TEnv \<Rightarrow> TContainer \<Rightarrow> TError" where
  "Create env c = SpecCreate env (Spec c)"

fun ContainerStateName :: "EContainerState \<Rightarrow> string" where
  "ContainerStateName Stopped = ''stopped''"
| "ContainerStateName Dead = ''dead''"
| "ContainerStateName Running = ''running''"
| "ContainerStateName Paused = ''paused''"

definition InvalidStateError :: "TContainer \<Rightarrow> TError" where
  "InvalidStateError c =
     TError InvalidValue (''invalid container state '' @ ContainerStateName (State c))"

text \<open>
  The body of \<^verbatim>\<open>Start\<close> after its gate (lines 241-273). \<^verbatim>\<open>Task->Start()\<close> follows a
  successful \<^verbatim>\<open>PrepareTask\<close>; the branch for a null \<^verbatim>\<open>Task\<close> is the dereference the
  source would make. Only a failing \<^verbatim>\<open>Task->Start()\<close> clears \<^verbatim>\<open>LeafCgroups\<close>.
\<close>

definition StartBody :: "TEnv \<Rightarrow> TContainer \<Rightarrow> (TError \<times> TContainer \<times> TAction list) option" where
  "StartBody env c1 =
     (case PrepareCgroups env c1 of
        (error, c2, t1) \<Rightarrow>
          if failed error then Some (error, c2, t1)
          else if IsRoot c2 then Some (TError_Success, c2\<lparr>State := Running\<rparr>, t1)
          else if length (Data (Spec c2) ''command'') = 0
          then Some (TError InvalidValue ''container command is empty'', c2, t1)
          else
            (case PrepareTask env c2 of
               (error, c3) \<Rightarrow>
                 if failed error then Some (error, c3, t1)
                 else
                   (case Task c3 of
                      None \<Rightarrow> None
                    | Some task \<Rightarrow>
                        (case TaskStart env task of
                           (error, task') \<Rightarrow>
                             if failed error
                             then Some (error,
                               c3\<lparr>Task := Some task', LeafCgroups := Map.empty\<rparr>,
                               t1 @ [ActTaskStart])
                             else Some (TError_Success,
                               c3\<lparr>Task := Some task',
                                  Spec := SetInternal ''root_pid'' (to_string (Pid task')) (Spec c3),
                                  State := Running\<rparr>,
                               t1 @ [ActTaskStart])))))"

text \<open>
  \<^verbatim>\<open>Start\<close> (lines 230-274): the acknowledged start of lines 231-235, the gate of lines
  236-239, then the body.
\<close>

definition Start :: "TEnv \<Rightarrow> TContainer \<Rightarrow> (TError \<times> TContainer \<times> TAction list) option" where
  "Start env c =
     (if (State c = Running \<or> State c = Dead) \<and> MaybeReturnedOk c
      then Some (TError_Success, c\<lparr>MaybeReturnedOk := False\<rparr>, [])
      else
        (case CheckState (c\<lparr>MaybeReturnedOk := False\<rparr>) Stopped of
           (False, c1) \<Rightarrow> Some (InvalidStateError c1, c1, [])
         | (True, c1) \<Rightarrow> StartBody env c1))"

text \<open>
  \<^verbatim>\<open>KillAll\<close> (lines 276-314). The results of \<^verbatim>\<open>SleepWhile\<close>, \<^verbatim>\<open>Freeze\<close> and \<^verbatim>\<open>Unfreeze\<close>
  are only logged; a failing \<^verbatim>\<open>GetTasks\<close> returns at once.
\<close>

definition KillAll :: "TEnv \<Rightarrow> TContainer \<Rightarrow> TError \<times> TAction list" where
  "KillAll env c =
     (let cg = GetLeafCgroup c FreezerSubsystem;
          error = GetTasks env 0 cg
      in if failed error then (error, [])
         else
           (let t = [ActKill cg SIGTERM, ActSleepWhileNotEmpty cg 1000, ActFreeze cg];
                error' = GetTasks env 1 cg
            in if failed error' then (error', t)
               else (TError_Success, t @ [ActKill cg SIGKILL, ActUnfreeze cg])))"

text \<open>
  The body of \<^verbatim>\<open>Stop\<close> after its gate (lines 323-337); \<^verbatim>\<open>Task->GetPid()\<close> dereferences
  \<^verbatim>\<open>Task\<close>.
\<close>

definition StopBody :: "TEnv \<Rightarrow> TContainer \<Rightarrow> (TError \<times> TContainer \<times> TAction list) option" where
  "StopBody env c =
     (case Task c of
        None \<Rightarrow> None
      | Some task \<Rightarrow>
          (let pid = Pid task in
           case KillAll env c of
             (error, t) \<Rightarrow>
               Some (TError_Success, c\<lparr>LeafCgroups := Map.empty, State := Stopped\<rparr>,
                     t @ [ActAckExitStatus pid])))"

text \<open>
  \<^verbatim>\<open>Stop\<close> (lines 319-338). The gate is
  \<^verbatim>\<open>IsRoot() || !(CheckState(Running) || CheckState(Dead))\<close>, evaluated left to right.
\<close>

definition Stop :: "TEnv \<Rightarrow> TContainer \<Rightarrow> (TError \<times> TContainer \<times> TAction list) option" where
  "Stop env c =
     (if IsRoot c then Some (InvalidStateError c, c, [])
      else
        (case CheckState c Running of
           (True, c1) \<Rightarrow> StopBody env c1
         | (False, c1) \<Rightarrow>
             (case CheckState c1 Dead of
                (True, c2) \<Rightarrow> StopBody env c2
              | (False, c2) \<Rightarrow> Some (InvalidStateError c2, c2, []))))"

text \<open>\<^verbatim>\<open>Pause\<close> (lines 340-353).\<close>

definition Pause :: "TEnv \<Rightarrow> TContainer \<Rightarrow> TError \<times> TContainer \<times> TAction list" where
  "Pause env c =
     (if IsRoot c then (InvalidStateError c, c, [])
      else
        (case CheckState c Running of
           (False, c1) \<Rightarrow> (InvalidStateError c1, c1, [])
         | (True, c1) \<Rightarrow>
             (let cg = GetLeafCgroup c1 FreezerSubsystem;
                  error = Freeze env cg
              in if failed error then (error, c1, [ActFreeze cg])
                 else (TError_Success, c1\<lparr>State := Paused\<rparr>, [ActFreeze cg]))))"

text \<open>\<^verbatim>\<open>Resume\<close> (lines 355-369): the gate does not ask \<^verbatim>\<open>IsRoot()\<close>.\<close>

definition Resume :: "TEnv \<Rightarrow> TContainer \<Rightarrow> TError \<times> TContainer \<times> TAction list" where
  "Resume env c =
     (case CheckState c Paused of
        (False, c1) \<Rightarrow> (InvalidStateError c1, c1, [])
      | (True, c1) \<Rightarrow>
          (let cg = GetLeafCgroup c1 FreezerSubsystem;
               error = Unfreeze env cg
           in if failed error then (error, c1, [ActUnfreeze cg])
              else (TError_Success, c1\<lparr>State := Running\<rparr>, [ActUnfreeze cg])))"

section \<open>Data readback\<close>

text \<open>
  The handlers of \<^verbatim>\<open>struct TData\<close> (lines 24-112). The \<^verbatim>\<open>default\<close> branch of the switch in
  \<^verbatim>\<open>State\<close> has no state left to match, and the test \<^verbatim>\<open>!cg\<close> of the two usage handlers
  never holds, \<^verbatim>\<open>GetLeafCgroup\<close> returning a handle; \<^verbatim>\<open>to_string\<close> of the unsigned 64-bit
  usage is the decimal of its value.
\<close>

definition TData_State :: "TEnv \<Rightarrow> TContainer \<Rightarrow> string" where
  "TData_State env c =
     (case State c of
        Stopped \<Rightarrow> ''stopped'' | Dead \<Rightarrow> ''dead'' | Running \<Rightarrow> ''running'' | Paused \<Rightarrow> ''paused'')"

definition TData_RootPid :: "TEnv \<Rightarrow> TContainer \<Rightarrow> string" where
  "TData_RootPid env c = (case Task c of Some t \<Rightarrow> to_string (Pid t) | None \<Rightarrow> ''-1'')"

definition TData_ExitStatus :: "TEnv \<Rightarrow> TContainer \<Rightarrow> string" where
  "TData_ExitStatus env c =
     (case Task c of
        None \<Rightarrow> ''-1''
      | Some t \<Rightarrow> if \<not> IsRunning t then to_string (Status (ExitStatus t)) else ''-1'')"

definition TData_StartErrno :: "TEnv \<Rightarrow> TContainer \<Rightarrow> string" where
  "TData_StartErrno env c =
     (case Task c of
        None \<Rightarrow> ''-1''
      | Some t \<Rightarrow> if \<not> IsRunning t then to_string (Error (ExitStatus t)) else ''-1'')"

definition TData_Stdout :: "TEnv \<Rightarrow> TContainer \<Rightarrow> string" where
  "TData_Stdout env c = (case Task c of Some t \<Rightarrow> TaskStdout env t | None \<Rightarrow> [])"

definition TData_Stderr :: "TEnv \<Rightarrow> TContainer \<Rightarrow> string" where
  "TData_Stderr env c = (case Task c of Some t \<Rightarrow> TaskStderr env t | None \<Rightarrow> [])"

definition TData_CpuUsage :: "TEnv \<Rightarrow> TContainer \<Rightarrow> string" where
  "TData_CpuUsage env c =
     (case Usage env (GetLeafCgroup c CpuacctSubsystem) of
        (error, val) \<Rightarrow> if failed error then ''-1'' else to_string (uint val))"

definition TData_MemUsage :: "TEnv \<Rightarrow> TContainer \<Rightarrow> string" where
  "TData_MemUsage env c =
     (case Usage env (GetLeafCgroup c MemorySubsystem) of
        (error, val) \<Rightarrow> if failed error then ''-1'' else to_string (uint val))"

record TDataSpec =
  Description :: string
  RootValid :: bool
  Handler :: "TEnv \<Rightarrow> TContainer \<Rightarrow> string"
  Valid :: "EContainerState set"

text \<open>The table \<^verbatim>\<open>DataSpec\<close> (lines 114-123), entry by entry.\<close>

definition DataSpec :: "(string \<times> TDataSpec) list" where
  "DataSpec =
     [(''state'', \<lparr>Description = ''container state'', RootValid = True,
         Handler = TData_State, Valid = {Stopped, Dead, Running, Paused}\<rparr>),
      (''exit_status'', \<lparr>Description = ''container exit status'', RootValid = False,
         Handler = TData_ExitStatus, Valid = {Dead}\<rparr>),
      (''start_errno'', \<lparr>Description = ''container start error'', RootValid = False,
         Handler = TData_StartErrno, Valid = {Stopped}\<rparr>),
      (''root_pid'', \<lparr>Description = ''root process id'', RootValid = False,
         Handler = TData_RootPid, Valid = {Running, Paused}\<rparr>),
      (''stdout'', \<lparr>Description = ''return task stdout'', RootValid = False,
         Handler = TData_Stdout, Valid = {Running, Paused, Dead}\<rparr>),
      (''stderr'', \<lparr>Description = ''return task stderr'', RootValid = False,
         Handler = TData_Stderr, Valid = {Running, Paused, Dead}\<rparr>),
      (''cpu_usage'', \<lparr>Description = ''return consumed CPU time in nanoseconds'', RootValid = True,
         Handler = TData_CpuUsage, Valid = {Running, Paused, Dead}\<rparr>),
      (''memory_usage'', \<lparr>Description = ''return consumed memory in bytes'', RootValid = True,
         Handler = TData_MemUsage, Valid = {Running, Paused, Dead}\<rparr>)]"

text \<open>
  \<^verbatim>\<open>GetData\<close> (lines 371-383): the three gates in the order of the source; the state
  gate reads the member \<^verbatim>\<open>State\<close> as it is. No statement of \<^verbatim>\<open>GetData\<close> or of a handler
  assigns to a member, so the result is the error or the string alone.
\<close>

definition GetData :: "TEnv \<Rightarrow> TContainer \<Rightarrow> string \<Rightarrow> TError + string" where
  "GetData env c name =
     (case map_of DataSpec name of
        None \<Rightarrow> Inl (TError InvalidValue ''invalid container data'')
      | Some d \<Rightarrow>
          if IsRoot c \<and> \<not> RootValid d
          then Inl (TError InvalidData ''invalid data for root container'')
          else if State c \<notin> Valid d
          then Inl (TError InvalidState (''invalid container state '' @ ContainerStateName (State c)))
          else Inr (Handler d env c))"

text \<open>\<^verbatim>\<open>GetProperty\<close> (lines 385-391) and \<^verbatim>\<open>SetProperty\<close> (lines 393-401).\<close>

definition GetProperty :: "TContainer \<Rightarrow> string \<Rightarrow> TError + string" where
  "GetProperty c property =
     (if IsRoot c then Inl (TError InvalidProperty ''no properties for root container'')
      else Inr (Data (Spec c) property))"

definition SetProperty :: "TEnv \<Rightarrow> TContainer \<Rightarrow> string \<Rightarrow> string \<Rightarrow> TError \<times> TContainer" where
  "SetProperty env c property v =
     (if IsRoot c then (TError InvalidValue ''Can't set property for root'', c)
      else if State c \<noteq> Stopped \<and> \<not> SpecIsDynamic env property
      then (TError InvalidValue
              (''Can't set dynamic property '' @ property @ '' for running container''), c)
      else (case SpecSet env (Spec c) property v of (error, s) \<Rightarrow> (error, c\<lparr>Spec := s\<rparr>)))"

section \<open>Restore, exit delivery, heartbeat\<close>

text \<open>
  Lines 410-420 of \<^verbatim>\<open>Restore\<close>: the persisted pid, or nothing when the slot \<^verbatim>\<open>root_pid\<close>
  is absent or its string does not parse (\<^verbatim>\<open>started = false\<close>).
\<close>

definition RestoredPid :: "TEnv \<Rightarrow> TContainerSpec \<Rightarrow> int option" where
  "RestoredPid env s =
     (case Internal s ''root_pid'' of None \<Rightarrow> None | Some pidStr \<Rightarrow> StringToInt env pidStr)"

text \<open>\<^verbatim>\<open>Restore\<close> (lines 403-466).\<close>

definition Restore ::
  "TEnv \<Rightarrow> TNode \<Rightarrow> TContainer \<Rightarrow> (TError \<times> TContainer \<times> TAction list) option" where
  "Restore env node c =
     (case SpecRestore env (Spec c) node of
        (error, s) \<Rightarrow>
          if failed error then Some (error, c\<lparr>Spec := s\<rparr>, [])
          else
            (let c1 = c\<lparr>Spec := s, State := Stopped\<rparr> in
             case RestoredPid env s of
               Some pid \<Rightarrow>
                 (case PrepareCgroups env c1 of
                    (error, c2, t1) \<Rightarrow>
                      if failed error then Some (error, c2, t1)
                      else
                        (case PrepareTask env c2 of
                           (error, c3) \<Rightarrow>
                             if failed error then Some (error, c3, t1)
                             else
                               (case Task c3 of
                                  None \<Rightarrow> None
                                | Some task \<Rightarrow>
                                    (case TaskRestore env task pid of
                                       (error, task') \<Rightarrow>
                                         if failed error
                                         then
                                           (let c4 = c3\<lparr>Task := None\<rparr> in
                                            case KillAll env c4 of
                                              (e, t2) \<Rightarrow>
                                                Some (error, c4, t1 @ [ActTaskRestore pid] @ t2))
                                         else
                                           (let c4 = c3\<lparr>Task := Some task',
                                                        State := (if IsRunning task' then Running
                                                                  else Stopped)\<rparr>;
                                                c5 = (if State c4 = Running
                                                      then c4\<lparr>MaybeReturnedOk := True\<rparr> else c4)
                                            in Some (TError_Success, c5, t1 @ [ActTaskRestore pid]))))))
             | None \<Rightarrow>
                 if IsAlive env c1
                 then
                   (case KillAll env c1 of
                      (e, t1) \<Rightarrow>
                        (case Start env c1 of
                           None \<Rightarrow> None
                         | Some (error, c2, t2) \<Rightarrow> Some (error, c2, t1 @ t2)))
                 else
                   (case KillAll env c1 of (e, t1) \<Rightarrow> Some (TError_Success, c1, t1))))"

text \<open>\<^verbatim>\<open>DeliverExitStatus\<close> (lines 478-489), with its two early returns.\<close>

definition DeliverExitStatus :: "TContainer \<Rightarrow> int \<Rightarrow> int \<Rightarrow> bool \<times> TContainer" where
  "DeliverExitStatus c pid status =
     (if State c \<noteq> Running then (False, c)
      else
        (case Task c of
           None \<Rightarrow> (False, c)
         | Some task \<Rightarrow>
             if Pid task \<noteq> pid then (False, c)
             else (True, c\<lparr>Task := Some (Task_DeliverExitStatus status task), State := Dead\<rparr>)))"

text \<open>\<^verbatim>\<open>Heartbeat\<close> (lines 491-494).\<close>

definition Heartbeat :: "TEnv \<Rightarrow> TContainer \<Rightarrow> TContainer \<times> TAction list" where
  "Heartbeat env c =
     (case Task c of
        None \<Rightarrow> (c, [])
      | Some task \<Rightarrow> (c\<lparr>Task := Some (TaskRotate env task)\<rparr>, [ActTaskRotate (Pid task)]))"

text \<open>
  The destructor (lines 134-139): \<^verbatim>\<open>Resume\<close> when \<open>Paused\<close>, then \<^verbatim>\<open>Stop\<close>; the results
  are dropped, the calls made remain.
\<close>

definition Destructor :: "TEnv \<Rightarrow> TContainer \<Rightarrow> TAction list option" where
  "Destructor env c =
     (case (if State c = Paused then (case Resume env c of (e, c', t) \<Rightarrow> (c', t)) else (c, [])) of
        (c1, t1) \<Rightarrow>
          (case Stop env c1 of None \<Rightarrow> None | Some (e, c2, t2) \<Rightarrow> Some (t1 @ t2)))"

section \<open>TContainerHolder\<close>

text \<open>
  The member \<^verbatim>\<open>Containers\<close> is a \<^verbatim>\<open>std::map\<close> from names to shared pointers: here the
  list of its entries in key order, a null pointer being \<open>None\<close>. Strings are ordered
  as \<^verbatim>\<open>std::string\<close> orders them, byte by byte.
\<close>

type_synonym TContainerHolder = "(string \<times> TContainer option) list"

text \<open>\<^verbatim>\<open>Containers[name] = v\<close>: replace the entry or insert it at its place.\<close>

fun map_assign :: "string \<Rightarrow> 'v \<Rightarrow> (string \<times> 'v) list \<Rightarrow> (string \<times> 'v) list" where
  "map_assign k v [] = [(k, v)]"
| "map_assign k v ((k', v') # m) =
     (if k = k' then (k, v) # m
      else if k < k' then (k, v) # (k', v') # m
      else (k', v') # map_assign k v m)"

text \<open>
  Reading \<^verbatim>\<open>Containers[name]\<close>: \<^verbatim>\<open>operator[]\<close> of \<^verbatim>\<open>std::map\<close> inserts a null pointer for a
  key that is absent, and returns the entry.
\<close>

definition map_subscript ::
  "string \<Rightarrow> (string \<times> 'v option) list \<Rightarrow> 'v option \<times> (string \<times> 'v option) list" where
  "map_subscript k m =
     (case map_of m k of
        Some v \<Rightarrow> (v, m)
      | None \<Rightarrow> (None, map_assign k None m))"

definition map_erase :: "string \<Rightarrow> (string \<times> 'v) list \<Rightarrow> (string \<times> 'v) list" where
  "map_erase k m = filter (\<lambda>e. fst e \<noteq> k) m"

text \<open>
  Modelled from the spec: \<^verbatim>\<open>isalnum\<close> is the C library's; in the C locale it holds of the
  ASCII digits and letters.
\<close>

definition isalnum :: "char \<Rightarrow> bool" where
  "isalnum c =
     (let n = (of_char c :: nat)
      in (48 \<le> n \<and> n \<le> 57) \<or> (65 \<le> n \<and> n \<le> 90) \<or> (97 \<le> n \<and> n \<le> 122))"

text \<open>\<^verbatim>\<open>ValidName\<close> (lines 509-520); \<^verbatim>\<open>find_if\<close> is \<open>find\<close>, \<^verbatim>\<open>name.end()\<close> is \<open>None\<close>.\<close>

definition ValidName :: "string \<Rightarrow> bool" where
  "ValidName name =
     (if name = ROOT_CONTAINER then True
      else if length name = 0 \<or> length name > 128 then False
      else find (\<lambda>c. \<not> (isalnum c \<or> c = CHR ''_'')) name = None)"

text \<open>
  \<^verbatim>\<open>TContainerHolder::Create\<close> (lines 522-536). The test \<^verbatim>\<open>Containers[name] == nullptr\<close>
  is a read through \<^verbatim>\<open>operator[]\<close>. When \<^verbatim>\<open>c->Create()\<close> fails the new object is destroyed;
  it is \<open>Stopped\<close>, so its destructor makes no call (lemma \<open>Destructor_NewContainer\<close>).
\<close>

definition Holder_Create :: "TEnv \<Rightarrow> TContainerHolder \<Rightarrow> string \<Rightarrow> TError \<times> TContainerHolder" where
  "Holder_Create env h name =
     (if \<not> ValidName name then (TError InvalidValue (''invalid container name '' @ name), h)
      else
        (case map_subscript name h of
           (None, h1) \<Rightarrow>
             (let c = NewContainer env name;
                  error = Create env c
              in if failed error then (error, h1)
                 else (TError_Success, map_assign name (Some c) h1))
         | (Some c', h1) \<Rightarrow>
             (TError InvalidValue (''container '' @ name @ '' already exists''), h1)))"

text \<open>\<^verbatim>\<open>Get\<close> (lines 538-543): a null handle for an absent name.\<close>

definition Holder_Get :: "TContainerHolder \<Rightarrow> string \<Rightarrow> TContainer option" where
  "Holder_Get h name = (case map_of h name of None \<Rightarrow> None | Some v \<Rightarrow> v)"

text \<open>
  \<^verbatim>\<open>Destroy\<close> (lines 545-548): the erased entry held the container, whose destructor
  runs.
\<close>

definition Holder_Destroy ::
  "TEnv \<Rightarrow> TContainerHolder \<Rightarrow> string \<Rightarrow> (TContainerHolder \<times> TAction list) option" where
  "Holder_Destroy env h name =
     (if name \<noteq> ROOT_CONTAINER then
        (case Holder_Get h name of
           None \<Rightarrow> Some (map_erase name h, [])
         | Some c \<Rightarrow>
             (case Destructor env c of
                None \<Rightarrow> None
              | Some t \<Rightarrow> Some (map_erase name h, t)))
      else Some (h, []))"

text \<open>
  \<^verbatim>\<open>List\<close> (lines 550-557): \<^verbatim>\<open>c.second->GetName()\<close> dereferences every entry.
\<close>

fun Holder_List :: "TContainerHolder \<Rightarrow> string list option" where
  "Holder_List [] = Some []"
| "Holder_List ((k, None) # h) = None"
| "Holder_List ((k, Some c) # h) =
     (case Holder_List h of None \<Rightarrow> None | Some ns \<Rightarrow> Some (GetName c # ns))"

text \<open>
  \<^verbatim>\<open>TContainerHolder::Restore\<close> (lines 559-568). A failing restore destroys the new
  object; a successful one replaces the entry, which destroys the object it held.
\<close>

definition Holder_Restore ::
  "TEnv \<Rightarrow> TContainerHolder \<Rightarrow> string \<Rightarrow> TNode \<Rightarrow>
     (TError \<times> TContainerHolder \<times> TAction list) option" where
  "Holder_Restore env h name node =
     (case Restore env node (NewContainer env name) of
        None \<Rightarrow> None
      | Some (e, c, t) \<Rightarrow>
          if failed e then
            (case Destructor env c of None \<Rightarrow> None | Some t' \<Rightarrow> Some (e, h, t @ t'))
          else
            (case Holder_Get h name of
               None \<Rightarrow> Some (TError_Success, map_assign name (Some c) h, t)
             | Some old \<Rightarrow>
                 (case Destructor env old of
                    None \<Rightarrow> None
                  | Some t' \<Rightarrow> Some (TError_Success, map_assign name (Some c) h, t @ t'))))"

text \<open>
  \<^verbatim>\<open>TContainerHolder::DeliverExitStatus\<close> (lines 570-576): the entries in key order, until
  one returns true.
\<close>

fun Holder_DeliverExitStatus ::
  "TContainerHolder \<Rightarrow> int \<Rightarrow> int \<Rightarrow> (bool \<times> TContainerHolder) option" where
  "Holder_DeliverExitStatus [] pid status = Some (False, [])"
| "Holder_DeliverExitStatus ((k, None) # h) pid status = None"
| "Holder_DeliverExitStatus ((k, Some c) # h) pid status =
     (case DeliverExitStatus c pid status of
        (True, c') \<Rightarrow> Some (True, (k, Some c') # h)
      | (False, c') \<Rightarrow>
          (case Holder_DeliverExitStatus h pid status of
             None \<Rightarrow> None
           | Some (r, h') \<Rightarrow> Some (r, (k, Some c') # h')))"

text \<open>\<^verbatim>\<open>TContainerHolder::Heartbeat\<close> (lines 578-581).\<close>

fun Holder_Heartbeat ::
  "TEnv \<Rightarrow> TContainerHolder \<Rightarrow> (TContainerHolder \<times> TAction list) option" where
  "Holder_Heartbeat env [] = Some ([], [])"
| "Holder_Heartbeat env ((k, None) # h) = None"
| "Holder_Heartbeat env ((k, Some c) # h) =
     (case Heartbeat env c of
        (c', t) \<Rightarrow>
          (case Holder_Heartbeat env h of
             None \<Rightarrow> None
           | Some (h', t') \<Rightarrow> Some ((k, Some c') # h', t @ t')))"

text \<open>\<^verbatim>\<open>CreateRoot\<close> (lines 498-507): the result of \<^verbatim>\<open>root->Start()\<close> is dropped.\<close>

definition Holder_CreateRoot ::
  "TEnv \<Rightarrow> TContainerHolder \<Rightarrow> (TError \<times> TContainerHolder \<times> TAction list) option" where
  "Holder_CreateRoot env h =
     (case Holder_Create env h ROOT_CONTAINER of
        (error, h1) \<Rightarrow>
          if failed error then Some (error, h1, [])
          else
            (case Holder_Get h1 ROOT_CONTAINER of
               None \<Rightarrow> None
             | Some root \<Rightarrow>
                 (case Start env root of
                    None \<Rightarrow> None
                  | Some (e, root', t) \<Rightarrow>
                      Some (TError_Success, map_assign ROOT_CONTAINER (Some root') h1, t))))"

section \<open>The tables of the specification\<close>

text \<open>
  The lifecycle operations a client invokes, and the transition table of the
  specification (section 4.3), row by row.
\<close>

datatype ELifecycleOp = OpStart | OpStop | OpPause | OpResume

definition TransitionTable :: "(EContainerState \<times> ELifecycleOp) list" where
  "TransitionTable =
     [(Stopped, OpStart), (Running, OpStop), (Dead, OpStop), (Running, OpPause),
      (Paused, OpResume)]"

definition Invoke ::
  "TEnv \<Rightarrow> ELifecycleOp \<Rightarrow> TContainer \<Rightarrow> (TError \<times> TContainer \<times> TAction list) option" where
  "Invoke env op c =
     (case op of
        OpStart \<Rightarrow> Start env c
      | OpStop \<Rightarrow> Stop env c
      | OpPause \<Rightarrow> Some (Pause env c)
      | OpResume \<Rightarrow> Some (Resume env c))"

text \<open>
  A stale \<open>Running\<close> state: the state is \<open>Running\<close> and the task is missing or reports
  that it is not running.
\<close>

definition StaleRunning :: "TContainer \<Rightarrow> bool" where
  "StaleRunning c =
     (State c = Running \<and> (case Task c of None \<Rightarrow> True | Some t \<Rightarrow> \<not> IsRunning t))"

text \<open>
  The data keys and their gates as the specification tabulates them (section 4.4): the
  eight keys, the keys valid on the root container, and the states in which a key may be
  read. \<open>KeyValue\<close> names the handler the source binds to each key.
\<close>

definition DataKeys :: "string list" where
  "DataKeys =
     [''state'', ''exit_status'', ''start_errno'', ''root_pid'', ''stdout'', ''stderr'',
      ''cpu_usage'', ''memory_usage'']"

definition Spec_RootValid :: "string \<Rightarrow> bool" where
  "Spec_RootValid name = (name = ''state'' \<or> name = ''cpu_usage'' \<or> name = ''memory_usage'')"

definition Spec_Gate :: "string \<Rightarrow> EContainerState set" where
  "Spec_Gate name =
     (if name = ''state'' then UNIV
      else if name = ''exit_status'' then {Dead}
      else if name = ''start_errno'' then {Stopped}
      else if name = ''root_pid'' then {Running, Paused}
      else {Running, Paused, Dead})"

definition KeyValue :: "TEnv \<Rightarrow> TContainer \<Rightarrow> string \<Rightarrow> string" where
  "KeyValue env c name =
     (if name = ''state'' then TData_State env c
      else if name = ''exit_status'' then TData_ExitStatus env c
      else if name = ''start_errno'' then TData_StartErrno env c
      else if name = ''root_pid'' then TData_RootPid env c
      else if name = ''stdout'' then TData_Stdout env c
      else if name = ''stderr'' then TData_Stderr env c
      else if name = ''cpu_usage'' then TData_CpuUsage env c
      else TData_MemUsage env c)"

text \<open>
  A well-formed name as the specification words it: not empty, at most 128 characters,
  every character one of \<open>A-Z\<close>, \<open>a-z\<close>, \<open>0-9\<close> and the underscore.
\<close>

definition NameChars :: string where
  "NameChars = ''ABCDEFGHIJKLMNOPQRSTUVWXYZabcdefghijklmnopqrstuvwxyz0123456789_''"

definition WellFormedName :: "string \<Rightarrow> bool" where
  "WellFormedName name =
     (name \<noteq> [] \<and> length name \<le> 128 \<and> list_all (\<lambda>c. c \<in> set NameChars) name)"

text \<open>
  Exit delivery in the registry: a container claims a pid when it is \<open>Running\<close> and the
  pid is its task's; an entry passes the pid on when it holds a container that does not
  claim it.
\<close>

definition Claims :: "TContainer \<Rightarrow> int \<Rightarrow> bool" where
  "Claims c pid = (State c = Running \<and> map_option Pid (Task c) = Some pid)"

definition PassesOn :: "int \<Rightarrow> string \<times> TContainer option \<Rightarrow> bool" where
  "PassesOn pid e = (case snd e of None \<Rightarrow> False | Some c \<Rightarrow> \<not> Claims c pid)"

section \<open>Histories of one container\<close>

text \<open>
  What can happen to a container between its creation and its destruction: a call of a
  member function, with the environment that answers it, or a change of the task by
  itself (its process exits). \<open>Apply\<close> is the container after the event, \<open>Run\<close> the
  container after a list of events; a null dereference ends the history.
\<close>

datatype TEvent =
  EvStart TEnv
  | EvStop TEnv
  | EvPause TEnv
  | EvResume TEnv
  | EvSetProperty TEnv string string
  | EvRestore TEnv TNode
  | EvDeliverExitStatus int int
  | EvHeartbeat TEnv
  | EvTaskChange "TTask \<Rightarrow> TTask"

fun Apply :: "TEvent \<Rightarrow> TContainer \<Rightarrow> TContainer option" where
  "Apply (EvStart env) c = map_option (\<lambda>r. fst (snd r)) (Start env c)"
| "Apply (EvStop env) c = map_option (\<lambda>r. fst (snd r)) (Stop env c)"
| "Apply (EvPause env) c = Some (fst (snd (Pause env c)))"
| "Apply (EvResume env) c = Some (fst (snd (Resume env c)))"
| "Apply (EvSetProperty env p v) c = Some (snd (SetProperty env c p v))"
| "Apply (EvRestore env node) c = map_option (\<lambda>r. fst (snd r)) (Restore env node c)"
| "Apply (EvDeliverExitStatus pid status) c = Some (snd (DeliverExitStatus c pid status))"
| "Apply (EvHeartbeat env) c = Some (fst (Heartbeat env c))"
| "Apply (EvTaskChange f) c = Some (c\<lparr>Task := map_option f (Task c)\<rparr>)"

fun Run :: "TEvent list \<Rightarrow> TContainer \<Rightarrow> TContainer option" where
  "Run [] c = Some c"
| "Run (ev # evs) c = (case Apply ev c of None \<Rightarrow> None | Some c' \<Rightarrow> Run evs c')"

section \<open>Sample inputs\<close>

text \<open>
  An environment in which every call succeeds, a started task gets the pid 42, no
  property is dynamic, no string parses as a pid and the memory controller has no
  \<^verbatim>\<open>memory.low_limit_in_bytes\<close>; and the containers the definitions are evaluated on.
\<close>

definition spec_empty :: TContainerSpec where
  "spec_empty = \<lparr>Data = (\<lambda>p. []), Internal = Map.empty\<rparr>"

definition env_ok :: TEnv where
  "env_ok =
     \<lparr>SubsysAddr = (\<lambda>s. case s of CpuacctSubsystem \<Rightarrow> 0 | MemorySubsystem \<Rightarrow> 1
                               | FreezerSubsystem \<Rightarrow> 2),
      CgroupCreate = (\<lambda>cg. TError_Success),
      UseHierarchy = (\<lambda>cg. TError_Success),
      HasKnob = (\<lambda>cg k. False),
      SetKnobValue = (\<lambda>cg k v. TError_Success),
      GetTasks = (\<lambda>n cg. TError_Success),
      GetProcesses = (\<lambda>cg. []),
      Freeze = (\<lambda>cg. TError_Success),
      Unfreeze = (\<lambda>cg. TError_Success),
      Usage = (\<lambda>cg. (TError_Success, 0)),
      TaskEnvPrepare = (\<lambda>e. TError_Success),
      TaskStart = (\<lambda>t. (TError_Success, t\<lparr>Pid := 42, IsRunning := True\<rparr>)),
      TaskRestore = (\<lambda>t pid. (TError_Success, t\<lparr>Pid := pid, IsRunning := True\<rparr>)),
      TaskRotate = (\<lambda>t. t),
      TaskStdout = (\<lambda>t. []),
      TaskStderr = (\<lambda>t. []),
      SpecInit = (\<lambda>n. spec_empty),
      SpecCreate = (\<lambda>s. TError_Success),
      SpecRestore = (\<lambda>s node. (TError_Success, s)),
      SpecSet = (\<lambda>s p v. (TError_Success, s\<lparr>Data := (Data s)(p := v)\<rparr>)),
      SpecIsDynamic = (\<lambda>p. False),
      StringToInt = (\<lambda>s. None)\<rparr>"

text \<open>The same environment with a persistence layer that refuses to create a record.\<close>

definition env_nopersist :: TEnv where
  "env_nopersist = env_ok\<lparr>SpecCreate := (\<lambda>s. TError Unknown ''cannot create record'')\<rparr>"

text \<open>A new container \<open>e\<close>; the same with a command; the new root container.\<close>

definition cont_e :: TContainer where
  "cont_e = NewContainer env_ok ''e''"

definition cont_sleep :: TContainer where
  "cont_sleep = cont_e\<lparr>Spec := spec_empty\<lparr>Data := (Data spec_empty)(''command'' := ''/bin/sleep 60'')\<rparr>\<rparr>"

definition cont_root :: TContainer where
  "cont_root = (NewContainer env_ok ROOT_CONTAINER)\<lparr>State := Running\<rparr>"

text \<open>A running task with pid 42, and containers around it.\<close>

definition task42 :: TTask where
  "task42 =
     (NewTask \<lparr>Command = ''/bin/sleep 60'', Cwd = [], Root = [], User = [], Group = [],
               Environ = []\<rparr> [])\<lparr>Pid := 42, IsRunning := True\<rparr>"

definition cont_running :: TContainer where
  "cont_running = cont_sleep\<lparr>State := Running, Task := Some task42\<rparr>"

definition cont_restored :: TContainer where
  "cont_restored = cont_running\<lparr>MaybeReturnedOk := True\<rparr>"

definition cont_stale :: TContainer where
  "cont_stale = cont_sleep\<lparr>State := Running\<rparr>"

text \<open>
  The leaves of the container \<open>e\<close>, the calls \<^verbatim>\<open>PrepareCgroups\<close> and \<^verbatim>\<open>KillAll\<close> make
  on them in the environment above, and the container \<open>e\<close> with its command after a
  successful \<^verbatim>\<open>Start\<close> and after its task has exited with status 3.
\<close>

definition leaf_e :: "TSubsystem \<Rightarrow> TCgroup" where
  "leaf_e subsys = \<lparr>Subsys = subsys, Relpath = [''porto'', ''e'']\<rparr>"

definition leaves_e :: "TSubsystem \<rightharpoonup> TCgroup" where
  "leaves_e = [CpuacctSubsystem \<mapsto> leaf_e CpuacctSubsystem,
               MemorySubsystem \<mapsto> leaf_e MemorySubsystem,
               FreezerSubsystem \<mapsto> leaf_e FreezerSubsystem]"

definition calls_e :: "TAction list" where
  "calls_e = [ActCreate (leaf_e CpuacctSubsystem), ActCreate (leaf_e MemorySubsystem),
       ActCreate (leaf_e FreezerSubsystem), ActUseHierarchy (leaf_e MemorySubsystem),
       ActSetKnobValue (leaf_e MemorySubsystem) ''memory.limit_in_bytes'' []]"

definition kill_e :: "TAction list" where
  "kill_e = [ActKill (leaf_e FreezerSubsystem) SIGTERM,
       ActSleepWhileNotEmpty (leaf_e FreezerSubsystem) 1000, ActFreeze (leaf_e FreezerSubsystem),
       ActKill (leaf_e FreezerSubsystem) SIGKILL, ActUnfreeze (leaf_e FreezerSubsystem)]"

definition spec_sleep :: TContainerSpec where
  "spec_sleep = spec_empty\<lparr>Data := (Data spec_empty)(''command'' := ''/bin/sleep 60'')\<rparr>"

definition spec_pid :: TContainerSpec where
  "spec_pid = spec_sleep\<lparr>Internal := [''root_pid'' \<mapsto> ''42'']\<rparr>"

definition task_e :: TTask where
  "task_e =
     (NewTask \<lparr>Command = ''/bin/sleep 60'', Cwd = [], Root = [], User = [], Group = [],
               Environ = []\<rparr>
        [leaf_e CpuacctSubsystem, leaf_e MemorySubsystem, leaf_e FreezerSubsystem])
     \<lparr>Pid := 42, IsRunning := True\<rparr>"

definition cont_started :: TContainer where
  "cont_started = cont_sleep\<lparr>LeafCgroups := leaves_e, Task := Some task_e, Spec := spec_pid,
     State := Running\<rparr>"

definition cont_dead :: TContainer where
  "cont_dead = cont_running\<lparr>Task := Some (Task_DeliverExitStatus 3 task42), State := Dead\<rparr>"

text \<open>
  Environments for a restart: one whose persistence layer holds the pid 42 for the
  container, one in which a process is alive in the freezer leaf and no pid is held.
\<close>

definition env_restore :: TEnv where
  "env_restore =
     env_ok\<lparr>SpecRestore := (\<lambda>s node. (TError_Success, spec_pid)),
            StringToInt := (\<lambda>s. if s = ''42'' then Some 42 else None)\<rparr>"

definition env_alive :: TEnv where
  "env_alive =
     env_ok\<lparr>GetProcesses := (\<lambda>cg. [7]),
            SpecRestore := (\<lambda>s node. (TError_Success, spec_sleep))\<rparr>"

section \<open>Shared lemmas\<close>

lemma CheckState_eq:
  "CheckState c e =
     (if StaleRunning c then (Stopped = e, c\<lparr>State := Stopped\<rparr>) else (State c = e, c))"
  by (simp add: CheckState_def StaleRunning_def Let_def)

lemma StaleRunning_State: "State c \<noteq> Running \<Longrightarrow> \<not> StaleRunning c"
  by (simp add: StaleRunning_def)

lemma StaleRunning_flag [simp]: "StaleRunning (c\<lparr>MaybeReturnedOk := b\<rparr>) = StaleRunning c"
  by (simp add: StaleRunning_def)

lemma UNIV_state: "(UNIV :: EContainerState set) = {Stopped, Dead, Running, Paused}"
proof -
  have "x \<in> {Stopped, Dead, Running, Paused}" for x :: EContainerState
    by (cases x) simp_all
  then show ?thesis by blast
qed

lemma to_string_42: "to_string 42 = ''42''"
  by code_simp

subsection \<open>The data table against the table of the specification\<close>

lemma DataSpec_unknown: "name \<notin> set DataKeys \<Longrightarrow> map_of DataSpec name = None"
  by (simp add: DataSpec_def DataKeys_def)

lemma DataSpec_known:
  "name \<in> set DataKeys \<Longrightarrow>
     \<exists>d. map_of DataSpec name = Some d \<and> RootValid d = Spec_RootValid name \<and>
         Valid d = Spec_Gate name \<and> Handler d = (\<lambda>env c. KeyValue env c name)"
  unfolding DataKeys_def
  apply (simp only: set_simps insert_iff empty_iff)
  apply (elim disjE)
  by (simp_all add: DataSpec_def Spec_RootValid_def Spec_Gate_def KeyValue_def UNIV_state)

lemma GetData_eq:
  "GetData env c name =
     (if name \<notin> set DataKeys then Inl (TError InvalidValue ''invalid container data'')
      else if IsRoot c \<and> \<not> Spec_RootValid name
      then Inl (TError InvalidData ''invalid data for root container'')
      else if State c \<notin> Spec_Gate name
      then Inl (TError InvalidState (''invalid container state '' @ ContainerStateName (State c)))
      else Inr (KeyValue env c name))"
proof (cases "name \<in> set DataKeys")
  case False
  then show ?thesis by (simp add: GetData_def DataSpec_unknown)
next
  case True
  from DataSpec_known [OF True] obtain d where
    d: "map_of DataSpec name = Some d" "RootValid d = Spec_RootValid name"
       "Valid d = Spec_Gate name" "Handler d = (\<lambda>env c. KeyValue env c name)"
    by blast
  with True show ?thesis by (simp add: GetData_def)
qed

subsection \<open>What the helpers of Start leave as it is\<close>

lemma SetMemoryLimit_frame: "fst (snd (SetMemoryLimit env c memcg t)) = c"
  by (simp add: SetMemoryLimit_def Let_def)

lemma PrepareCgroups_frame:
  "\<exists>l. fst (snd (PrepareCgroups env c)) = c\<lparr>LeafCgroups := l\<rparr>"
  unfolding PrepareCgroups_def Let_def
  by (auto split: prod.splits simp: SetMemoryLimit_frame)

lemma PrepareTask_cases:
  "PrepareTask env c = (e, c') \<Longrightarrow>
     (failed e \<and> c' = c) \<or> (e = TError_Success \<and> (\<exists>task. c' = c\<lparr>Task := Some task\<rparr>))"
  by (auto simp: PrepareTask_def Let_def split: if_splits)

lemma PrepareCgroups_State: "PrepareCgroups env c = (e, c', t) \<Longrightarrow> State c' = State c"
  using PrepareCgroups_frame [of env c] by auto

lemma PrepareCgroups_Name: "PrepareCgroups env c = (e, c', t) \<Longrightarrow> Name c' = Name c"
  using PrepareCgroups_frame [of env c] by auto

lemma PrepareTask_State: "PrepareTask env c = (e, c') \<Longrightarrow> State c' = State c"
  by (auto dest: PrepareTask_cases)

lemma PrepareTask_Task:
  "PrepareTask env c = (e, c') \<Longrightarrow> \<not> failed e \<Longrightarrow> Task c' \<noteq> None"
  by (auto dest: PrepareTask_cases)

lemma StartBody_total: "\<exists>e c' t. StartBody env c = Some (e, c', t)"
proof -
  obtain e2 c2 t2 where pc: "PrepareCgroups env c = (e2, c2, t2)"
    by (cases "PrepareCgroups env c")
  obtain e3 c3 where pt: "PrepareTask env c2 = (e3, c3)" by (cases "PrepareTask env c2")
  show ?thesis
  proof (cases "failed e3")
    case True
    with pc pt show ?thesis by (simp add: StartBody_def)
  next
    case False
    with PrepareTask_Task [OF pt] obtain task where "Task c3 = Some task" by auto
    with pc pt False show ?thesis by (simp add: StartBody_def split: prod.splits)
  qed
qed

lemma Start_total: "\<exists>e c' t. Start env c = Some (e, c', t)"
  using StartBody_total by (simp add: Start_def split: prod.splits bool.splits)

lemma StartBody_State:
  assumes "StartBody env c = Some (e, c', t)"
  shows "State c' = State c \<or> State c' = Running"
proof -
  obtain e2 c2 t2 where pc: "PrepareCgroups env c = (e2, c2, t2)"
    by (cases "PrepareCgroups env c")
  obtain e3 c3 where pt: "PrepareTask env c2 = (e3, c3)" by (cases "PrepareTask env c2")
  have s2: "State c2 = State c" using PrepareCgroups_State [OF pc] .
  have s3: "State c3 = State c" using PrepareTask_State [OF pt] s2 by simp
  from assms pc pt s2 s3 show ?thesis
    by (auto simp: StartBody_def split: if_splits option.splits prod.splits)
qed

lemma CheckState_result:
  "CheckState c e = (b, c1) \<Longrightarrow>
     b = (State c1 = e) \<and> (State c1 = Dead \<longleftrightarrow> State c = Dead) \<and>
     (c1 = c \<or> c1 = c\<lparr>State := Stopped\<rparr>)"
  by (auto simp: CheckState_eq StaleRunning_def split: if_splits)

lemma Start_Dead:
  assumes "Start env c = Some (e, c', t)" and "State c' = Dead"
  shows "State c = Dead"
proof (cases "(State c = Running \<or> State c = Dead) \<and> MaybeReturnedOk c")
  case True
  with assms show ?thesis by (auto simp: Start_def)
next
  case False
  obtain b c1 where cs: "CheckState (c\<lparr>MaybeReturnedOk := False\<rparr>) Stopped = (b, c1)"
    by (cases "CheckState (c\<lparr>MaybeReturnedOk := False\<rparr>) Stopped")
  from CheckState_result [OF cs] have b: "b = (State c1 = Stopped)"
    and d: "State c1 = Dead \<longleftrightarrow> State c = Dead" by simp_all
  show ?thesis
  proof (cases b)
    case True
    with assms(1) False cs have "StartBody env c1 = Some (e, c', t)"
      by (simp add: Start_def)
    from StartBody_State [OF this] assms(2) b True show ?thesis by simp
  next
    case n: False
    with assms False cs d show ?thesis by (simp add: Start_def)
  qed
qed

lemma StopBody_Dead: "StopBody env c = Some (e, c', t) \<Longrightarrow> State c' \<noteq> Dead"
  by (auto simp: StopBody_def Let_def split: option.splits prod.splits)

lemma Stop_Dead:
  assumes "Stop env c = Some (e, c', t)" and "State c' = Dead"
  shows "State c = Dead"
proof -
  obtain b1 c1 where cs1: "CheckState c Running = (b1, c1)" by (cases "CheckState c Running")
  obtain b2 c2 where cs2: "CheckState c1 Dead = (b2, c2)" by (cases "CheckState c1 Dead")
  from CheckState_result [OF cs1] CheckState_result [OF cs2]
  have d: "State c2 = Dead \<longleftrightarrow> State c = Dead" by simp
  from assms cs1 cs2 d show ?thesis
    by (auto simp: Stop_def split: if_splits bool.splits dest: StopBody_Dead)
qed

lemma Pause_Dead:
  assumes "State (fst (snd (Pause env c))) = Dead"
  shows "State c = Dead"
proof -
  obtain b1 c1 where cs1: "CheckState c Running = (b1, c1)" by (cases "CheckState c Running")
  from CheckState_result [OF cs1] have d: "State c1 = Dead \<longleftrightarrow> State c = Dead" by simp
  from assms cs1 d show ?thesis
    by (auto simp: Pause_def Let_def split: if_splits bool.splits)
qed

lemma Resume_Dead:
  assumes "State (fst (snd (Resume env c))) = Dead"
  shows "State c = Dead"
proof -
  obtain b1 c1 where cs1: "CheckState c Paused = (b1, c1)" by (cases "CheckState c Paused")
  from CheckState_result [OF cs1] have d: "State c1 = Dead \<longleftrightarrow> State c = Dead" by simp
  from assms cs1 d show ?thesis
    by (auto simp: Resume_def Let_def split: if_splits bool.splits)
qed

lemma SetProperty_State: "State (snd (SetProperty env c p v)) = State c"
  by (auto simp: SetProperty_def split: prod.splits)

lemma Heartbeat_State: "State (fst (Heartbeat env c)) = State c"
  by (auto simp: Heartbeat_def split: option.splits)

lemma Restore_Dead:
  assumes "Restore env node c = Some (e, c', t)" and "State c' = Dead"
  shows "State c = Dead"
proof -
  obtain e0 s where sr: "SpecRestore env (Spec c) node = (e0, s)"
    by (cases "SpecRestore env (Spec c) node")
  let ?c1 = "c\<lparr>Spec := s, State := Stopped\<rparr>"
  obtain e2 c2 t2 where pc: "PrepareCgroups env ?c1 = (e2, c2, t2)"
    by (cases "PrepareCgroups env ?c1")
  have s2: "State c2 = Stopped" using PrepareCgroups_State [OF pc] by simp
  obtain e3 c3 where pt: "PrepareTask env c2 = (e3, c3)" by (cases "PrepareTask env c2")
  have s3: "State c3 = Stopped" using PrepareTask_State [OF pt] s2 by simp
  have st: "\<And>e4 c4 t4. Start env ?c1 = Some (e4, c4, t4) \<Longrightarrow> State c4 \<noteq> Dead"
    using Start_Dead [of env ?c1] by auto
  from assms sr pc pt s2 s3 show ?thesis
    by (auto simp: Restore_def Let_def split: if_splits option.splits prod.splits dest: st)
qed

lemma DeliverExitStatus_eq:
  "DeliverExitStatus c pid status =
     (if Claims c pid
      then (True, c\<lparr>Task := map_option (Task_DeliverExitStatus status) (Task c), State := Dead\<rparr>)
      else (False, c))"
  by (auto simp: DeliverExitStatus_def Claims_def split: option.splits)

lemma Apply_Dead:
  assumes "Apply ev c = Some c'" and "State c' = Dead"
  shows "State c = Dead \<or> State c = Running"
proof (cases ev)
  case (EvStart env)
  with assms show ?thesis using Start_Dead [of env c] by auto
next
  case (EvStop env)
  with assms show ?thesis using Stop_Dead [of env c] by auto
next
  case (EvPause env)
  with assms show ?thesis using Pause_Dead [of env c] by auto
next
  case (EvResume env)
  with assms show ?thesis using Resume_Dead [of env c] by auto
next
  case (EvSetProperty env p v)
  with assms show ?thesis using SetProperty_State [of env c p v] by auto
next
  case (EvRestore env node)
  with assms show ?thesis using Restore_Dead [of env node c] by auto
next
  case (EvDeliverExitStatus pid status)
  with assms show ?thesis by (auto simp: DeliverExitStatus_eq Claims_def split: if_splits)
next
  case (EvHeartbeat env)
  with assms show ?thesis using Heartbeat_State [of env c] by auto
next
  case (EvTaskChange f)
  with assms show ?thesis by auto
qed

lemma Run_Dead_after_Running:
  "Run evs c0 = Some c \<Longrightarrow> State c0 \<noteq> Dead \<Longrightarrow> State c = Dead \<Longrightarrow>
     \<exists>n c'. n < length evs \<and> Run (take n evs) c0 = Some c' \<and> State c' = Running"
proof (induction evs arbitrary: c0)
  case Nil
  then show ?case by simp
next
  case (Cons ev evs)
  from Cons.prems(1) obtain c1 where a: "Apply ev c0 = Some c1" and r: "Run evs c1 = Some c"
    by (auto split: option.splits)
  show ?case
  proof (cases "State c0 = Running")
    case True
    then have "0 < length (ev # evs) \<and> Run (take 0 (ev # evs)) c0 = Some c0 \<and> State c0 = Running"
      by simp
    then show ?thesis by blast
  next
    case False
    with Cons.prems(2) a have "State c1 \<noteq> Dead" using Apply_Dead [of ev c0 c1] by auto
    from Cons.IH [OF r this Cons.prems(3)] obtain n c' where
      n: "n < length evs" "Run (take n evs) c1 = Some c'" "State c' = Running" by blast
    then have "Suc n < length (ev # evs) \<and> Run (take (Suc n) (ev # evs)) c0 = Some c'
        \<and> State c' = Running"
      using a by simp
    then show ?thesis by blast
  qed
qed

lemma Holder_DeliverExitStatus_unclaimed:
  "list_all (PassesOn pid) h \<Longrightarrow> Holder_DeliverExitStatus h pid status = Some (False, h)"
proof (induction h)
  case Nil
  then show ?case by simp
next
  case (Cons e h)
  obtain k v where e: "e = (k, v)" by (cases e)
  with Cons.prems obtain c where v: "v = Some c" and n: "\<not> Claims c pid"
    by (auto simp: PassesOn_def split: option.splits)
  from Cons.prems have "list_all (PassesOn pid) h" by simp
  with Cons.IH e v n show ?case by (simp add: DeliverExitStatus_eq)
qed

lemma Holder_DeliverExitStatus_first:
  "list_all (PassesOn pid) pre \<Longrightarrow> Claims c pid \<Longrightarrow>
     Holder_DeliverExitStatus (pre @ (k, Some c) # post) pid status
       = Some (True, pre @ (k, Some (snd (DeliverExitStatus c pid status))) # post)"
proof (induction pre)
  case Nil
  then show ?case by (simp add: DeliverExitStatus_eq)
next
  case (Cons e pre)
  obtain k' v where e: "e = (k', v)" by (cases e)
  with Cons.prems obtain c' where v: "v = Some c'" and n: "\<not> Claims c' pid"
    by (auto simp: PassesOn_def split: option.splits)
  from Cons.prems have "list_all (PassesOn pid) pre" by simp
  from Cons.IH [OF this Cons.prems(2)] e v n show ?case by (simp add: DeliverExitStatus_eq)
qed

subsection \<open>Evaluation on the sample inputs\<close>

lemma failed_Success [simp]: "\<not> failed TError_Success"
  by (simp add: failed_def TError_Success_def)

lemma failed_TError [simp]: "failed (TError k m) = (k \<noteq> Success)"
  by (simp add: failed_def)

lemma CreateAll_cong:
  assumes "CgroupCreate env' = CgroupCreate env"
  shows "CreateAll env' = CreateAll env"
proof
  fix cgs
  show "CreateAll env' cgs = CreateAll env cgs"
  proof (induction cgs)
    case Nil
    show ?case by simp
  next
    case (Cons cg cgs)
    show ?case unfolding CreateAll.simps assms Cons.IH ..
  qed
qed

lemma Leaves_cong:
  assumes "SubsysAddr env' = SubsysAddr env"
  shows "Leaves env' = Leaves env"
proof
  fix c
  show "Leaves env' c = Leaves env c" unfolding Leaves_def assms ..
qed

lemma PrepareCgroups_cong:
  assumes "SubsysAddr env' = SubsysAddr env" "CgroupCreate env' = CgroupCreate env"
    "UseHierarchy env' = UseHierarchy env" "HasKnob env' = HasKnob env"
    "SetKnobValue env' = SetKnobValue env"
  shows "PrepareCgroups env' = PrepareCgroups env"
proof
  fix c
  show "PrepareCgroups env' c = PrepareCgroups env c"
    unfolding PrepareCgroups_def SetMemoryLimit_def CreateAll_cong [OF assms(2)]
      Leaves_cong [OF assms(1)] assms(3-5) ..
qed

lemma PrepareTask_cong:
  assumes "SubsysAddr env' = SubsysAddr env" "TaskEnvPrepare env' = TaskEnvPrepare env"
  shows "PrepareTask env' = PrepareTask env"
proof
  fix c
  show "PrepareTask env' c = PrepareTask env c"
    unfolding PrepareTask_def Leaves_cong [OF assms(1)] assms(2) ..
qed

lemma StartBody_cong:
  assumes "SubsysAddr env' = SubsysAddr env" "CgroupCreate env' = CgroupCreate env"
    "UseHierarchy env' = UseHierarchy env" "HasKnob env' = HasKnob env"
    "SetKnobValue env' = SetKnobValue env" "TaskEnvPrepare env' = TaskEnvPrepare env"
    "TaskStart env' = TaskStart env"
  shows "StartBody env' = StartBody env"
proof
  fix c
  show "StartBody env' c = StartBody env c"
    unfolding StartBody_def PrepareCgroups_cong [OF assms(1-5)]
      PrepareTask_cong [OF assms(1) assms(6)] assms(7) ..
qed

lemma Start_cong:
  assumes "SubsysAddr env' = SubsysAddr env" "CgroupCreate env' = CgroupCreate env"
    "UseHierarchy env' = UseHierarchy env" "HasKnob env' = HasKnob env"
    "SetKnobValue env' = SetKnobValue env" "TaskEnvPrepare env' = TaskEnvPrepare env"
    "TaskStart env' = TaskStart env"
  shows "Start env' = Start env"
proof
  fix c
  show "Start env' c = Start env c"
    unfolding Start_def StartBody_cong [OF assms] ..
qed

lemma env_ok_simps [simp]:
  "SubsysAddr env_ok CpuacctSubsystem = 0" "SubsysAddr env_ok MemorySubsystem = 1"
  "SubsysAddr env_ok FreezerSubsystem = 2"
  "CgroupCreate env_ok cg = TError_Success" "UseHierarchy env_ok cg = TError_Success"
  "HasKnob env_ok cg k = False" "SetKnobValue env_ok cg k v = TError_Success"
  "GetTasks env_ok n cg = TError_Success" "GetProcesses env_ok cg = []"
  "Freeze env_ok cg = TError_Success" "Unfreeze env_ok cg = TError_Success"
  "TaskEnvPrepare env_ok te = TError_Success"
  "TaskStart env_ok t = (TError_Success, t\<lparr>Pid := 42, IsRunning := True\<rparr>)"
  "TaskRestore env_ok t pid = (TError_Success, t\<lparr>Pid := pid, IsRunning := True\<rparr>)"
  "SpecInit env_ok nm = spec_empty" "SpecCreate env_ok s = TError_Success"
  "SpecRestore env_ok s node = (TError_Success, s)" "StringToInt env_ok str = None"
  by (simp_all add: env_ok_def)

lemma GetLeafCgroup_recorded: "LeafCgroups c s = Some cg \<Longrightarrow> GetLeafCgroup c s = cg"
  by (simp add: GetLeafCgroup_def)

lemma GetLeafCgroup_e:
  "LeafCgroups c s = None \<Longrightarrow> Name c = ''e'' \<Longrightarrow> GetLeafCgroup c s = leaf_e s"
  by (simp add: GetLeafCgroup_def leaf_e_def ROOT_CONTAINER_def PORTO_ROOT_CGROUP_def)

lemma CreateAll_env_ok: "CreateAll env_ok cgs = (TError_Success, map ActCreate cgs)"
  by (induction cgs) simp_all

lemma Leaves_env_ok:
  "LeafCgroups c = leaves_e \<Longrightarrow>
     Leaves env_ok c = [leaf_e CpuacctSubsystem, leaf_e MemorySubsystem, leaf_e FreezerSubsystem]"
  by (simp add: Leaves_def leaves_e_def)

lemma PrepareCgroups_env_ok_success: "fst (PrepareCgroups env_ok c) = TError_Success"
  by (simp add: PrepareCgroups_def Let_def CreateAll_env_ok SetMemoryLimit_def)

lemma PrepareCgroups_sample:
  assumes n: "Name c = ''e''" and l: "LeafCgroups c = Map.empty"
    and m: "Data (Spec c) ''memory_limit'' = []"
  shows "PrepareCgroups env_ok c = (TError_Success, c\<lparr>LeafCgroups := leaves_e\<rparr>, calls_e)"
proof -
  let ?c1 = "c\<lparr>LeafCgroups := (LeafCgroups c)(CpuacctSubsystem \<mapsto> leaf_e CpuacctSubsystem)\<rparr>"
  let ?c2 = "?c1\<lparr>LeafCgroups := (LeafCgroups ?c1)(MemorySubsystem \<mapsto> leaf_e MemorySubsystem)\<rparr>"
  let ?c3 = "?c2\<lparr>LeafCgroups := (LeafCgroups ?c2)(FreezerSubsystem \<mapsto> leaf_e FreezerSubsystem)\<rparr>"
  have g1: "GetLeafCgroup c CpuacctSubsystem = leaf_e CpuacctSubsystem"
    using n l by (simp add: GetLeafCgroup_e)
  have g2: "GetLeafCgroup ?c1 MemorySubsystem = leaf_e MemorySubsystem"
    using n l by (simp add: GetLeafCgroup_e)
  have g3: "GetLeafCgroup ?c2 FreezerSubsystem = leaf_e FreezerSubsystem"
    using n l by (simp add: GetLeafCgroup_e)
  have c3: "?c3 = c\<lparr>LeafCgroups := leaves_e\<rparr>"
    using l by (simp add: leaves_e_def)
  have g4: "GetLeafCgroup (c\<lparr>LeafCgroups := leaves_e\<rparr>) MemorySubsystem = leaf_e MemorySubsystem"
    by (simp add: GetLeafCgroup_recorded leaves_e_def)
  have L: "Leaves env_ok (c\<lparr>LeafCgroups := leaves_e\<rparr>)
      = [leaf_e CpuacctSubsystem, leaf_e MemorySubsystem, leaf_e FreezerSubsystem]"
    by (simp add: Leaves_env_ok)
  have "PrepareCgroups env_ok c =
     (case CreateAll env_ok (Leaves env_ok ?c3) of
        (ret, t1) \<Rightarrow>
          if failed ret then (ret, ?c3\<lparr>LeafCgroups := Map.empty\<rparr>, t1)
          else
            (let memroot = GetRootCgroup MemorySubsystem;
                 memcg = GetLeafCgroup ?c3 MemorySubsystem;
                 error = UseHierarchy env_ok memcg;
                 t2 = t1 @ [ActUseHierarchy memcg]
             in if failed error then (error, ?c3, t2)
                else if HasKnob env_ok memroot ''memory.low_limit_in_bytes'' then
                  (let g = Data (Spec ?c3) ''memory_guarantee'';
                       error' = SetKnobValue env_ok memcg ''memory.low_limit_in_bytes'' g;
                       t3 = t2 @ [ActSetKnobValue memcg ''memory.low_limit_in_bytes'' g]
                   in if failed error' then (error', ?c3, t3)
                      else SetMemoryLimit env_ok ?c3 memcg t3)
                else SetMemoryLimit env_ok ?c3 memcg t2))"
    unfolding PrepareCgroups_def Let_def g1 g2 g3 ..
  also have "\<dots> = (TError_Success, c\<lparr>LeafCgroups := leaves_e\<rparr>, calls_e)"
    unfolding c3 L CreateAll_env_ok using m
    by (simp add: g4 SetMemoryLimit_def calls_e_def Let_def)
  finally show ?thesis .
qed

lemma cont_e_simps [simp]:
  "Name cont_e = ''e''" "State cont_e = Stopped" "MaybeReturnedOk cont_e = False"
  "Spec cont_e = spec_empty" "LeafCgroups cont_e = Map.empty" "Task cont_e = None"
  by (simp_all add: cont_e_def NewContainer_def)

lemma cont_sleep_simps [simp]:
  "Name cont_sleep = ''e''" "State cont_sleep = Stopped" "MaybeReturnedOk cont_sleep = False"
  "Spec cont_sleep = spec_sleep" "LeafCgroups cont_sleep = Map.empty" "Task cont_sleep = None"
  by (simp_all add: cont_sleep_def spec_sleep_def)

lemma not_root_e: "Name c = ''e'' \<Longrightarrow> \<not> IsRoot c"
  by (simp add: IsRoot_def ROOT_CONTAINER_def)

lemma StartBody_empty_command:
  "StartBody env_ok cont_e
     = Some (TError InvalidValue ''container command is empty'',
             cont_e\<lparr>LeafCgroups := leaves_e\<rparr>, calls_e)"
proof -
  have "PrepareCgroups env_ok cont_e = (TError_Success, cont_e\<lparr>LeafCgroups := leaves_e\<rparr>, calls_e)"
    by (rule PrepareCgroups_sample) (simp_all add: spec_empty_def)
  then show ?thesis
    by (simp add: StartBody_def not_root_e spec_empty_def)
qed

lemma StartBody_sleep:
  "StartBody env_ok cont_sleep
     = Some (TError_Success,
             cont_sleep\<lparr>LeafCgroups := leaves_e, Task := Some task_e,
               Spec := spec_pid, State := Running\<rparr>,
             calls_e @ [ActTaskStart])"
proof -
  have pc: "PrepareCgroups env_ok cont_sleep
      = (TError_Success, cont_sleep\<lparr>LeafCgroups := leaves_e\<rparr>, calls_e)"
    by (rule PrepareCgroups_sample) (simp_all add: spec_sleep_def spec_empty_def)
  have pt: "PrepareTask env_ok (cont_sleep\<lparr>LeafCgroups := leaves_e\<rparr>)
      = (TError_Success, cont_sleep\<lparr>LeafCgroups := leaves_e,
           Task := Some (NewTask \<lparr>Command = ''/bin/sleep 60'', Cwd = [], Root = [], User = [],
             Group = [], Environ = []\<rparr>
             [leaf_e CpuacctSubsystem, leaf_e MemorySubsystem, leaf_e FreezerSubsystem])\<rparr>)"
    by (simp add: PrepareTask_def Leaves_env_ok spec_sleep_def spec_empty_def)
  show ?thesis
    unfolding StartBody_def pc
    by (simp add: pt not_root_e to_string_42 NewTask_def task_e_def SetInternal_def
        spec_pid_def spec_sleep_def spec_empty_def)
qed

lemma Start_sleep:
  "Start env_ok cont_sleep = Some (TError_Success, cont_started, calls_e @ [ActTaskStart])"
proof -
  have "CheckState (cont_sleep\<lparr>MaybeReturnedOk := False\<rparr>) Stopped = (True, cont_sleep)"
    by (simp add: CheckState_eq StaleRunning_def cont_sleep_def)
  then show ?thesis
    by (simp add: Start_def StartBody_sleep cont_started_def)
qed

lemma Claims_running: "Claims cont_running 42"
  by (simp add: Claims_def cont_running_def task42_def)

lemma Claims_started: "Claims cont_started 42"
  by (simp add: Claims_def cont_started_def task_e_def)

subsection \<open>Restart and kill\<close>

lemma env_restore_fields:
  "SubsysAddr env_restore = SubsysAddr env_ok" "CgroupCreate env_restore = CgroupCreate env_ok"
  "UseHierarchy env_restore = UseHierarchy env_ok" "HasKnob env_restore = HasKnob env_ok"
  "SetKnobValue env_restore = SetKnobValue env_ok"
  "TaskEnvPrepare env_restore = TaskEnvPrepare env_ok"
  "TaskStart env_restore = TaskStart env_ok" "TaskRestore env_restore = TaskRestore env_ok"
  "SpecRestore env_restore s node = (TError_Success, spec_pid)"
  "StringToInt env_restore ''42'' = Some 42"
  by (simp_all add: env_restore_def)

lemma env_alive_fields:
  "SubsysAddr env_alive = SubsysAddr env_ok" "CgroupCreate env_alive = CgroupCreate env_ok"
  "UseHierarchy env_alive = UseHierarchy env_ok" "HasKnob env_alive = HasKnob env_ok"
  "SetKnobValue env_alive = SetKnobValue env_ok"
  "TaskEnvPrepare env_alive = TaskEnvPrepare env_ok"
  "TaskStart env_alive = TaskStart env_ok" "GetTasks env_alive = GetTasks env_ok"
  "SpecRestore env_alive s node = (TError_Success, spec_sleep)"
  "StringToInt env_alive = StringToInt env_ok"
  "GetProcesses env_alive cg = [7]"
  by (simp_all add: env_alive_def)

lemma KillAll_ok:
  "\<not> failed (GetTasks env 0 (GetLeafCgroup c FreezerSubsystem)) \<Longrightarrow>
   \<not> failed (GetTasks env 1 (GetLeafCgroup c FreezerSubsystem)) \<Longrightarrow>
   KillAll env c =
     (TError_Success,
      [ActKill (GetLeafCgroup c FreezerSubsystem) SIGTERM,
       ActSleepWhileNotEmpty (GetLeafCgroup c FreezerSubsystem) 1000,
       ActFreeze (GetLeafCgroup c FreezerSubsystem),
       ActKill (GetLeafCgroup c FreezerSubsystem) SIGKILL,
       ActUnfreeze (GetLeafCgroup c FreezerSubsystem)])"
  by (simp add: KillAll_def Let_def)

lemma KillAll_e:
  "Name c = ''e'' \<Longrightarrow> LeafCgroups c = Map.empty \<Longrightarrow> GetTasks env = GetTasks env_ok \<Longrightarrow>
     KillAll env c = (TError_Success, kill_e)"
  by (simp add: KillAll_ok GetLeafCgroup_e kill_e_def)

lemma Restore_sample:
  "Restore env_restore [] cont_e
     = Some (TError_Success, cont_started\<lparr>MaybeReturnedOk := True\<rparr>,
             calls_e @ [ActTaskRestore 42])"
proof -
  let ?c1 = "cont_e\<lparr>Spec := spec_pid, State := Stopped\<rparr>"
  have rp: "RestoredPid env_restore spec_pid = Some 42"
    by (simp add: RestoredPid_def spec_pid_def env_restore_fields)
  have pc: "PrepareCgroups env_restore ?c1 = (TError_Success, ?c1\<lparr>LeafCgroups := leaves_e\<rparr>, calls_e)"
    unfolding PrepareCgroups_cong [OF env_restore_fields(1-5)]
    by (rule PrepareCgroups_sample) (simp_all add: spec_pid_def spec_sleep_def spec_empty_def)
  have pt: "PrepareTask env_restore (?c1\<lparr>LeafCgroups := leaves_e\<rparr>)
      = (TError_Success, ?c1\<lparr>LeafCgroups := leaves_e,
           Task := Some (NewTask \<lparr>Command = ''/bin/sleep 60'', Cwd = [], Root = [], User = [],
             Group = [], Environ = []\<rparr>
             [leaf_e CpuacctSubsystem, leaf_e MemorySubsystem, leaf_e FreezerSubsystem])\<rparr>)"
    unfolding PrepareTask_cong [OF env_restore_fields(1) env_restore_fields(6)]
    by (simp add: PrepareTask_def Leaves_env_ok spec_pid_def spec_sleep_def spec_empty_def)
  show ?thesis
    unfolding Restore_def
    by (simp add: env_restore_fields rp pc pt cont_started_def task_e_def NewTask_def
        cont_sleep_def)
qed

lemma Restore_Running_flag:
  assumes sr: "SpecRestore env (Spec c0) node = (e0, s)" and ok: "\<not> failed e0"
    and rp: "RestoredPid env s = Some pid"
    and r: "Restore env node c0 = Some (e, c, t)" and run: "State c = Running"
  shows "MaybeReturnedOk c \<and> e = TError_Success"
proof -
  let ?c1 = "c0\<lparr>Spec := s, State := Stopped\<rparr>"
  obtain e2 c2 t2 where pc: "PrepareCgroups env ?c1 = (e2, c2, t2)"
    by (cases "PrepareCgroups env ?c1")
  have s2: "State c2 = Stopped" using PrepareCgroups_State [OF pc] by simp
  obtain e3 c3 where pt: "PrepareTask env c2 = (e3, c3)" by (cases "PrepareTask env c2")
  have s3: "State c3 = Stopped" using PrepareTask_State [OF pt] s2 by simp
  from r sr ok rp pc pt s2 s3 run show ?thesis
    by (auto simp: Restore_def Let_def split: if_splits option.splits prod.splits)
qed

lemma StartBody_root:
  assumes "IsRoot c" and "\<not> failed (fst (PrepareCgroups env c))"
  shows "\<exists>c' t. StartBody env c = Some (TError_Success, c', t) \<and> State c' = Running"
proof -
  obtain e2 c2 t2 where pc: "PrepareCgroups env c = (e2, c2, t2)"
    by (cases "PrepareCgroups env c")
  have "IsRoot c2" using PrepareCgroups_Name [OF pc] assms(1) by (simp add: IsRoot_def)
  with pc assms(2) show ?thesis by (simp add: StartBody_def)
qed

lemma PrepareCgroups_leaves:
  assumes "PrepareCgroups env c = (e, c', t)" and "\<not> failed e"
  shows "LeafCgroups c' CpuacctSubsystem \<noteq> None \<and> LeafCgroups c' MemorySubsystem \<noteq> None
     \<and> LeafCgroups c' FreezerSubsystem \<noteq> None"
  using assms unfolding PrepareCgroups_def SetMemoryLimit_def Let_def
  by (auto split: prod.splits if_splits)

subsection \<open>Names and the map of the registry\<close>

lemma name_char_iff: "(isalnum c \<or> c = CHR ''_'') \<longleftrightarrow> c \<in> set NameChars"
proof (cases c)
  case (Char b0 b1 b2 b3 b4 b5 b6 b7)
  show ?thesis
    unfolding Char isalnum_def NameChars_def Let_def
    by (cases b0; cases b1; cases b2; cases b3; cases b4; cases b5; cases b6; cases b7) simp_all
qed

lemma ValidName_iff: "ValidName name \<longleftrightarrow> name = ROOT_CONTAINER \<or> WellFormedName name"
proof -
  have "find (\<lambda>c. \<not> (isalnum c \<or> c = CHR ''_'')) name = None
      \<longleftrightarrow> list_all (\<lambda>c. c \<in> set NameChars) name"
    by (auto simp: find_None_iff list_all_iff name_char_iff)
  then show ?thesis
    by (auto simp: ValidName_def WellFormedName_def)
qed

lemma map_of_map_assign:
  "map_of (map_assign k v m) k' = (if k' = k then Some v else map_of m k')"
  by (induction m) auto

lemma Holder_Get_map_assign: "Holder_Get (map_assign k v m) k = v"
  by (simp add: Holder_Get_def map_of_map_assign)

lemma map_subscript_eq:
  "map_subscript k m =
     (Holder_Get m k, if map_of m k = None then map_assign k None m else m)"
  by (simp add: map_subscript_def Holder_Get_def split: option.splits)

lemma Holder_Create_eq:
  "Holder_Create env h name =
     (if \<not> ValidName name then (TError InvalidValue (''invalid container name '' @ name), h)
      else if Holder_Get h name \<noteq> None
      then (TError InvalidValue (''container '' @ name @ '' already exists''), h)
      else if failed (SpecCreate env (SpecInit env name))
      then (SpecCreate env (SpecInit env name),
            if map_of h name = None then map_assign name None h else h)
      else (TError_Success,
            map_assign name (Some (NewContainer env name))
              (if map_of h name = None then map_assign name None h else h)))"
proof -
  have "Holder_Get h name \<noteq> None \<Longrightarrow> map_of h name \<noteq> None"
    by (auto simp: Holder_Get_def split: option.splits)
  then show ?thesis
    by (auto simp: Holder_Create_def map_subscript_eq Create_def NewContainer_def Let_def)
qed

lemma Holder_List_null: "Holder_List (map_assign k None h) = None"
proof (induction h)
  case Nil
  show ?case by simp
next
  case (Cons e h)
  obtain k' v where e: "e = (k', v)" by (cases e)
  show ?case
  proof (cases v)
    case None
    with e show ?thesis by simp
  next
    case (Some c)
    with e Cons.IH show ?thesis by simp
  qed
qed

lemma Holder_Heartbeat_null: "Holder_Heartbeat env (map_assign k None h) = None"
proof (induction h)
  case Nil
  show ?case by simp
next
  case (Cons e h)
  obtain k' v where e: "e = (k', v)" by (cases e)
  show ?case
  proof (cases v)
    case None
    with e show ?thesis by simp
  next
    case (Some c)
    with e Cons.IH show ?thesis by (simp split: prod.splits)
  qed
qed

lemma Holder_DeliverExitStatus_null:
  "list_all (PassesOn pid) h \<Longrightarrow>
     Holder_DeliverExitStatus (map_assign k None h) pid status = None"
proof (induction h)
  case Nil
  show ?case by simp
next
  case (Cons e h)
  obtain k' v where e: "e = (k', v)" by (cases e)
  with Cons.prems obtain c where v: "v = Some c" and n: "\<not> Claims c pid"
    by (auto simp: PassesOn_def split: option.splits)
  from Cons.prems have "list_all (PassesOn pid) h" by simp
  with Cons.IH e v n show ?case by (simp add: DeliverExitStatus_eq)
qed

lemma Destructor_NewContainer: "Destructor env (NewContainer env' name) = Some []"
proof -
  let ?c = "NewContainer env' name"
  have s: "State ?c = Stopped" "\<not> StaleRunning ?c"
    by (simp_all add: NewContainer_def StaleRunning_def)
  then have "\<exists>e c'. Stop env ?c = Some (e, c', [])"
    by (simp add: Stop_def CheckState_eq)
  with s show ?thesis by (auto simp: Destructor_def)
qed

section \<open>Data readback: the gates of GetData\<close>

text \<open>
  Claim C6. For every container and every key name, \<^verbatim>\<open>GetData\<close> fails with
  \<open>InvalidValue\<close> when the name is not one of the eight data keys; otherwise with
  \<open>InvalidData\<close> when the container is the root container and the key is not valid on
  it; otherwise with \<open>InvalidState\<close> when the container's state is not in the key's set
  of allowed states (the table of section 4.4); otherwise it succeeds and yields the
  value of the key's handler. The three tests are made in this order.
\<close>

theorem GetData_gates:
  "GetData env c name =
     (if name \<notin> set DataKeys then Inl (TError InvalidValue ''invalid container data'')
      else if IsRoot c \<and> \<not> Spec_RootValid name
      then Inl (TError InvalidData ''invalid data for root container'')
      else if State c \<notin> Spec_Gate name
      then Inl (TError InvalidState (''invalid container state '' @ ContainerStateName (State c)))
      else Inr (KeyValue env c name))"
  by (rule GetData_eq)

theorem GetData_gates_witness:
  "GetData env_ok cont_e ''exit_status'' = Inl (TError InvalidState ''invalid container state stopped'')
   \<and> GetData env_ok cont_e ''state'' = Inr ''stopped''
   \<and> GetData env_ok cont_e ''nonsense'' = Inl (TError InvalidValue ''invalid container data'')
   \<and> GetData env_ok cont_root ''root_pid'' = Inl (TError InvalidData ''invalid data for root container'')
   \<and> GetData env_ok cont_running ''root_pid'' = Inr ''42''"
proof -
  have 1: "GetData env_ok cont_e ''exit_status''
      = Inl (TError InvalidState ''invalid container state stopped'')"
    using GetData_gates [of env_ok cont_e "''exit_status''"]
    by (simp add: DataKeys_def Spec_RootValid_def Spec_Gate_def IsRoot_def cont_e_def
        NewContainer_def ROOT_CONTAINER_def)
  have 2: "GetData env_ok cont_e ''state'' = Inr ''stopped''"
    using GetData_gates [of env_ok cont_e "''state''"]
    by (simp add: DataKeys_def Spec_RootValid_def Spec_Gate_def KeyValue_def TData_State_def
        cont_e_def NewContainer_def)
  have 3: "GetData env_ok cont_e ''nonsense'' = Inl (TError InvalidValue ''invalid container data'')"
    using GetData_gates [of env_ok cont_e "''nonsense''"] by (simp add: DataKeys_def)
  have 4: "GetData env_ok cont_root ''root_pid''
      = Inl (TError InvalidData ''invalid data for root container'')"
    using GetData_gates [of env_ok cont_root "''root_pid''"]
    by (simp add: DataKeys_def Spec_RootValid_def IsRoot_def cont_root_def NewContainer_def)
  have 5: "GetData env_ok cont_running ''root_pid'' = Inr ''42''"
    using GetData_gates [of env_ok cont_running "''root_pid''"]
    by (simp add: DataKeys_def Spec_RootValid_def Spec_Gate_def KeyValue_def IsRoot_def
        TData_RootPid_def to_string_42 cont_running_def cont_sleep_def cont_e_def task42_def
        NewContainer_def NewTask_def ROOT_CONTAINER_def)
  from 1 2 3 4 5 show ?thesis by simp
qed

section \<open>Data readback: no reconciliation in GetData\<close>

text \<open>
  Claim C5 says that \<^verbatim>\<open>GetData\<close> first sets a stale \<open>Running\<close> state to \<open>Stopped\<close> and
  evaluates the gate of the key against the reconciled state. The source does not:
  \<^verbatim>\<open>GetData\<close> never calls \<^verbatim>\<open>CheckState\<close>. On a container that is \<open>Running\<close> with no task,
  \<^verbatim>\<open>root_pid\<close> (allowed when \<open>Running\<close>, not when \<open>Stopped\<close>) is read with success, while
  on the state \<^verbatim>\<open>CheckState\<close> would leave, the same read fails with \<open>InvalidState\<close>.
\<close>

theorem GetData_reconciles_counterexample:
  "StaleRunning cont_stale
   \<and> GetData env_ok cont_stale ''root_pid'' = Inr ''-1''
   \<and> snd (CheckState cont_stale Stopped) = cont_stale\<lparr>State := Stopped\<rparr>
   \<and> GetData env_ok (cont_stale\<lparr>State := Stopped\<rparr>) ''root_pid''
       = Inl (TError InvalidState ''invalid container state stopped'')"
  by (simp add: GetData_eq CheckState_eq StaleRunning_def DataKeys_def Spec_RootValid_def
      Spec_Gate_def KeyValue_def IsRoot_def TData_RootPid_def cont_stale_def cont_sleep_def
      cont_e_def NewContainer_def ROOT_CONTAINER_def)

text \<open>
  Claim C5, amended. \<^verbatim>\<open>GetData\<close> does not reconcile: on a container whose state is a
  stale \<open>Running\<close> it evaluates the gate of the key against \<open>Running\<close>, the state as
  stored, and (returning only an error or a string) changes nothing. The reconciliation
  to \<open>Stopped\<close> is \<^verbatim>\<open>CheckState\<close>'s, which \<^verbatim>\<open>Start\<close>, \<^verbatim>\<open>Stop\<close>, \<^verbatim>\<open>Pause\<close> and \<^verbatim>\<open>Resume\<close> call.
\<close>

theorem GetData_reads_stored_state:
  assumes "StaleRunning c"
  shows "GetData env c name =
     (if name \<notin> set DataKeys then Inl (TError InvalidValue ''invalid container data'')
      else if IsRoot c \<and> \<not> Spec_RootValid name
      then Inl (TError InvalidData ''invalid data for root container'')
      else if Running \<notin> Spec_Gate name
      then Inl (TError InvalidState ''invalid container state running'')
      else Inr (KeyValue env c name))"
proof -
  from assms have "State c = Running" by (simp add: StaleRunning_def)
  then show ?thesis by (simp add: GetData_eq)
qed

theorem GetData_reads_stored_state_witness:
  "StaleRunning cont_stale
   \<and> GetData env_ok cont_stale ''stdout'' = Inr []
   \<and> GetData env_ok cont_stale ''start_errno''
       = Inl (TError InvalidState ''invalid container state running'')"
proof -
  have s: "StaleRunning cont_stale"
    by (simp add: StaleRunning_def cont_stale_def cont_sleep_def cont_e_def NewContainer_def)
  have n: "\<not> IsRoot cont_stale"
    by (simp add: IsRoot_def cont_stale_def cont_sleep_def cont_e_def NewContainer_def
        ROOT_CONTAINER_def)
  have t: "Task cont_stale = None"
    by (simp add: cont_stale_def cont_sleep_def cont_e_def NewContainer_def)
  have 1: "GetData env_ok cont_stale ''stdout'' = Inr []"
    using GetData_reads_stored_state [OF s, of env_ok "''stdout''"] n t
    by (simp add: DataKeys_def Spec_Gate_def KeyValue_def TData_Stdout_def)
  have 2: "GetData env_ok cont_stale ''start_errno''
      = Inl (TError InvalidState ''invalid container state running'')"
    using GetData_reads_stored_state [OF s, of env_ok "''start_errno''"] n
    by (simp add: DataKeys_def Spec_Gate_def)
  from s 1 2 show ?thesis by simp
qed

section \<open>Operations outside the transition table\<close>

text \<open>
  Claim C1 says that an operation invoked in a state for which the transition table has
  no row returns an error of kind \<open>InvalidState\<close> and leaves the container unchanged.
  The source does otherwise in three ways, each shown on a sample: \<^verbatim>\<open>Pause\<close> on the new
  (\<open>Stopped\<close>) container returns \<open>InvalidValue\<close>; \<^verbatim>\<open>Resume\<close> on a container that is
  \<open>Running\<close> without a task returns \<open>InvalidValue\<close> and sets the state to \<open>Stopped\<close>;
  \<^verbatim>\<open>Start\<close> on a \<open>Running\<close> container whose flag \<^verbatim>\<open>MaybeReturnedOk\<close> is set returns success.
\<close>

theorem unlisted_operation_counterexample:
  "(State cont_e, OpPause) \<notin> set TransitionTable
   \<and> Invoke env_ok OpPause cont_e
       = Some (TError InvalidValue ''invalid container state stopped'', cont_e, [])
   \<and> (State cont_stale, OpResume) \<notin> set TransitionTable
   \<and> Invoke env_ok OpResume cont_stale
       = Some (TError InvalidValue ''invalid container state stopped'',
               cont_stale\<lparr>State := Stopped\<rparr>, [])
   \<and> (State cont_restored, OpStart) \<notin> set TransitionTable
   \<and> Invoke env_ok OpStart cont_restored
       = Some (TError_Success, cont_restored\<lparr>MaybeReturnedOk := False\<rparr>, [])"
proof -
  have se: "\<not> StaleRunning cont_e" "\<not> IsRoot cont_e" "State cont_e = Stopped"
    by (simp_all add: StaleRunning_def IsRoot_def cont_e_def NewContainer_def ROOT_CONTAINER_def)
  have ss: "StaleRunning cont_stale" "State cont_stale = Running"
    by (simp_all add: StaleRunning_def cont_stale_def cont_sleep_def cont_e_def NewContainer_def)
  have sr: "State cont_restored = Running" "MaybeReturnedOk cont_restored"
    by (simp_all add: cont_restored_def cont_running_def)
  have 1: "Invoke env_ok OpPause cont_e
       = Some (TError InvalidValue ''invalid container state stopped'', cont_e, [])"
    using se by (simp add: Invoke_def Pause_def CheckState_eq InvalidStateError_def)
  have 2: "Invoke env_ok OpResume cont_stale
       = Some (TError InvalidValue ''invalid container state stopped'',
               cont_stale\<lparr>State := Stopped\<rparr>, [])"
    using ss by (simp add: Invoke_def Resume_def CheckState_eq InvalidStateError_def)
  have 3: "Invoke env_ok OpStart cont_restored
       = Some (TError_Success, cont_restored\<lparr>MaybeReturnedOk := False\<rparr>, [])"
    using sr by (simp add: Invoke_def Start_def)
  from 1 2 3 se ss sr show ?thesis by (simp add: TransitionTable_def)
qed

text \<open>
  Claim C1, amended. For every container and every pair of a state and an operation
  that the transition table does not list:
  \<^item> when the state is not a stale \<open>Running\<close> (and, for \<^verbatim>\<open>Start\<close>, \<^verbatim>\<open>MaybeReturnedOk\<close> is
    not set unless the state is \<open>Paused\<close>), the operation returns an error of kind
    \<open>InvalidValue\<close> (message \<^verbatim>\<open>invalid container state\<close> and the name of the state), makes
    no call on the kernel or the task, and leaves the container unchanged, but that
    \<^verbatim>\<open>Start\<close> clears \<^verbatim>\<open>MaybeReturnedOk\<close>;
  \<^item> \<^verbatim>\<open>Resume\<close> on a stale \<open>Running\<close> state of a container other than the root container
    returns \<open>InvalidValue\<close>, makes no call, and sets the state to \<open>Stopped\<close>, leaving the
    rest unchanged; on the root container it returns \<open>InvalidValue\<close>, makes no call and
    leaves the name, the properties, the task and the leaves unchanged (nothing is said
    of the state);
  \<^item> \<^verbatim>\<open>Start\<close> while \<open>Running\<close> or \<open>Dead\<close> with \<^verbatim>\<open>MaybeReturnedOk\<close> set returns success, makes
    no call, and only clears the flag;
  \<^item> \<^verbatim>\<open>Start\<close> on a stale \<open>Running\<close> state with the flag not set, of a container other
    than the root container, does what \<^verbatim>\<open>Start\<close> does on the same container in state
    \<open>Stopped\<close> (nothing is said of the root container).
\<close>

theorem unlisted_operation_rejected:
  "((State c, op) \<notin> set TransitionTable \<and> \<not> StaleRunning c \<and>
      (op = OpStart \<and> MaybeReturnedOk c \<longrightarrow> State c = Paused) \<longrightarrow>
      Invoke env op c =
        Some (TError InvalidValue (''invalid container state '' @ ContainerStateName (State c)),
              c\<lparr>MaybeReturnedOk := (op \<noteq> OpStart \<and> MaybeReturnedOk c)\<rparr>, []))
   \<and> (StaleRunning c \<and> \<not> IsRoot c \<longrightarrow>
        Invoke env OpResume c =
          Some (TError InvalidValue ''invalid container state stopped'',
                c\<lparr>State := Stopped\<rparr>, []))
   \<and> (StaleRunning c \<and> IsRoot c \<longrightarrow>
        (\<exists>s. Invoke env OpResume c =
           Some (TError InvalidValue (''invalid container state '' @ ContainerStateName s),
                 c\<lparr>State := s\<rparr>, [])))
   \<and> ((State c = Running \<or> State c = Dead) \<and> MaybeReturnedOk c \<longrightarrow>
        Invoke env OpStart c = Some (TError_Success, c\<lparr>MaybeReturnedOk := False\<rparr>, []))
   \<and> (StaleRunning c \<and> \<not> MaybeReturnedOk c \<and> \<not> IsRoot c \<longrightarrow>
        Invoke env OpStart c = Invoke env OpStart (c\<lparr>State := Stopped\<rparr>))"
proof -
  have 1: "Invoke env op c =
        Some (TError InvalidValue (''invalid container state '' @ ContainerStateName (State c)),
              c\<lparr>MaybeReturnedOk := (op \<noteq> OpStart \<and> MaybeReturnedOk c)\<rparr>, [])"
    if unlisted: "(State c, op) \<notin> set TransitionTable" and n: "\<not> StaleRunning c"
      and f: "op = OpStart \<and> MaybeReturnedOk c \<longrightarrow> State c = Paused"
  proof (cases op)
    case OpStart
    with unlisted have s: "State c \<noteq> Stopped" by (auto simp: TransitionTable_def)
    from f OpStart have "MaybeReturnedOk c \<longrightarrow> State c = Paused" by simp
    with s n OpStart show ?thesis
      by (auto simp: Invoke_def Start_def CheckState_eq InvalidStateError_def)
  next
    case OpStop
    with unlisted have s: "State c \<noteq> Running" "State c \<noteq> Dead"
      by (auto simp: TransitionTable_def)
    with n OpStop show ?thesis
      by (auto simp: Invoke_def Stop_def CheckState_eq InvalidStateError_def)
  next
    case OpPause
    with unlisted have s: "State c \<noteq> Running" by (auto simp: TransitionTable_def)
    with n OpPause show ?thesis
      by (auto simp: Invoke_def Pause_def CheckState_eq InvalidStateError_def)
  next
    case OpResume
    with unlisted have s: "State c \<noteq> Paused" by (auto simp: TransitionTable_def)
    with n OpResume show ?thesis
      by (auto simp: Invoke_def Resume_def CheckState_eq InvalidStateError_def)
  qed
  have 2: "Invoke env OpResume c =
          Some (TError InvalidValue ''invalid container state stopped'',
                c\<lparr>State := Stopped\<rparr>, [])" if "StaleRunning c"
    using that by (simp add: Invoke_def Resume_def CheckState_eq InvalidStateError_def)
  have 3: "\<exists>s. Invoke env OpResume c =
           Some (TError InvalidValue (''invalid container state '' @ ContainerStateName s),
                 c\<lparr>State := s\<rparr>, [])" if "StaleRunning c"
  proof -
    from 2 [OF that] have "Invoke env OpResume c =
           Some (TError InvalidValue (''invalid container state '' @ ContainerStateName Stopped),
                 c\<lparr>State := Stopped\<rparr>, [])"
      by simp
    then show ?thesis by blast
  qed
  have 4: "Invoke env OpStart c = Some (TError_Success, c\<lparr>MaybeReturnedOk := False\<rparr>, [])"
    if "(State c = Running \<or> State c = Dead) \<and> MaybeReturnedOk c"
    using that by (simp add: Invoke_def Start_def)
  have 5: "Invoke env OpStart c = Invoke env OpStart (c\<lparr>State := Stopped\<rparr>)"
    if s: "StaleRunning c" and f: "\<not> MaybeReturnedOk c"
  proof -
    have n: "\<not> StaleRunning (c\<lparr>State := Stopped\<rparr>)" by (simp add: StaleRunning_def)
    have e: "c\<lparr>MaybeReturnedOk := False, State := Stopped\<rparr>
        = c\<lparr>State := Stopped, MaybeReturnedOk := False\<rparr>"
      by simp
    have a: "Invoke env OpStart c
        = StartBody env (c\<lparr>MaybeReturnedOk := False, State := Stopped\<rparr>)"
      using s f by (simp add: Invoke_def Start_def CheckState_eq)
    have b: "Invoke env OpStart (c\<lparr>State := Stopped\<rparr>)
        = StartBody env (c\<lparr>State := Stopped, MaybeReturnedOk := False\<rparr>)"
      using n by (simp add: Invoke_def Start_def CheckState_eq)
    show ?thesis unfolding a b e ..
  qed
  from 1 2 3 4 5 show ?thesis by blast
qed

theorem unlisted_operation_rejected_witness:
  "(State cont_e, OpStop) \<notin> set TransitionTable \<and> \<not> StaleRunning cont_e
   \<and> Invoke env_ok OpStop cont_e
       = Some (TError InvalidValue ''invalid container state stopped'', cont_e, [])
   \<and> (State cont_running, OpStart) \<notin> set TransitionTable
   \<and> \<not> MaybeReturnedOk cont_running \<and> \<not> StaleRunning cont_running
   \<and> Invoke env_ok OpStart cont_running
       = Some (TError InvalidValue ''invalid container state running'', cont_running, [])
   \<and> StaleRunning cont_stale \<and> \<not> IsRoot cont_stale \<and> \<not> MaybeReturnedOk cont_stale
   \<and> Invoke env_ok OpResume cont_stale
       = Some (TError InvalidValue ''invalid container state stopped'',
               cont_stale\<lparr>State := Stopped\<rparr>, [])
   \<and> Invoke env_ok OpStart cont_stale
       = Some (TError_Success, cont_started, calls_e @ [ActTaskStart])
   \<and> StaleRunning cont_root \<and> IsRoot cont_root
   \<and> map_option (\<lambda>r. (GetError (fst r), snd (snd r))) (Invoke env_ok OpResume cont_root)
       = Some (InvalidValue, [])
   \<and> State (cont_dead\<lparr>MaybeReturnedOk := True\<rparr>) = Dead
   \<and> MaybeReturnedOk (cont_dead\<lparr>MaybeReturnedOk := True\<rparr>)
   \<and> Invoke env_ok OpStart (cont_dead\<lparr>MaybeReturnedOk := True\<rparr>)
       = Some (TError_Success, cont_dead, [])"
proof -
  have u1: "(State cont_e, OpStop) \<notin> set TransitionTable"
    by (simp add: TransitionTable_def)
  have se: "\<not> StaleRunning cont_e" by (simp add: StaleRunning_def)
  have 1: "Invoke env_ok OpStop cont_e
       = Some (TError InvalidValue ''invalid container state stopped'', cont_e, [])"
    using unlisted_operation_rejected [of cont_e OpStop env_ok] u1 se
    by (simp add: cont_e_def NewContainer_def)
  have u2: "(State cont_running, OpStart) \<notin> set TransitionTable"
    by (simp add: TransitionTable_def cont_running_def)
  have sr: "\<not> MaybeReturnedOk cont_running" "\<not> StaleRunning cont_running"
    by (simp_all add: StaleRunning_def cont_running_def task42_def)
  have fr: "cont_running\<lparr>MaybeReturnedOk := False\<rparr> = cont_running"
    by (simp add: cont_running_def cont_sleep_def cont_e_def NewContainer_def)
  have "Invoke env_ok OpStart cont_running
       = Some (TError InvalidValue
                 (''invalid container state '' @ ContainerStateName (State cont_running)),
               cont_running\<lparr>MaybeReturnedOk := (OpStart \<noteq> OpStart \<and> MaybeReturnedOk cont_running)\<rparr>,
               [])"
    using unlisted_operation_rejected [of cont_running OpStart env_ok] u2 sr by blast
  then have 2: "Invoke env_ok OpStart cont_running
       = Some (TError InvalidValue ''invalid container state running'', cont_running, [])"
    by (simp add: fr) (simp add: cont_running_def)
  have ss: "StaleRunning cont_stale" "\<not> IsRoot cont_stale" "\<not> MaybeReturnedOk cont_stale"
    by (simp_all add: StaleRunning_def cont_stale_def not_root_e)
  have 3: "Invoke env_ok OpResume cont_stale
       = Some (TError InvalidValue ''invalid container state stopped'',
               cont_stale\<lparr>State := Stopped\<rparr>, [])"
    using unlisted_operation_rejected [of cont_stale OpResume env_ok] ss by blast
  have cs: "cont_stale\<lparr>State := Stopped\<rparr> = cont_sleep"
    by (simp add: cont_stale_def cont_sleep_def cont_e_def NewContainer_def)
  have "Invoke env_ok OpStart cont_stale = Invoke env_ok OpStart (cont_stale\<lparr>State := Stopped\<rparr>)"
    using unlisted_operation_rejected [of cont_stale OpStart env_ok] ss by blast
  then have 4: "Invoke env_ok OpStart cont_stale
       = Some (TError_Success, cont_started, calls_e @ [ActTaskStart])"
    unfolding cs by (simp add: Invoke_def Start_sleep)
  have rt: "StaleRunning cont_root" "IsRoot cont_root"
    by (simp_all add: StaleRunning_def IsRoot_def cont_root_def NewContainer_def)
  have "\<exists>s. Invoke env_ok OpResume cont_root =
           Some (TError InvalidValue (''invalid container state '' @ ContainerStateName s),
                 cont_root\<lparr>State := s\<rparr>, [])"
    using unlisted_operation_rejected [of cont_root OpResume env_ok] rt by blast
  then have 5: "map_option (\<lambda>r. (GetError (fst r), snd (snd r))) (Invoke env_ok OpResume cont_root)
       = Some (InvalidValue, [])"
    by auto
  let ?d = "cont_dead\<lparr>MaybeReturnedOk := True\<rparr>"
  have sd: "State ?d = Dead" "MaybeReturnedOk ?d" by (simp_all add: cont_dead_def)
  have fd: "?d\<lparr>MaybeReturnedOk := False\<rparr> = cont_dead"
    by (simp add: cont_dead_def cont_running_def cont_sleep_def cont_e_def NewContainer_def)
  have "Invoke env_ok OpStart ?d = Some (TError_Success, ?d\<lparr>MaybeReturnedOk := False\<rparr>, [])"
    using unlisted_operation_rejected [of ?d OpStart env_ok] sd by blast
  then have 6: "Invoke env_ok OpStart ?d = Some (TError_Success, cont_dead, [])"
    unfolding fd .
  from u1 se 1 u2 sr 2 ss 3 4 rt 5 sd 6 show ?thesis by simp
qed

section \<open>The root container\<close>

text \<open>
  Claim C3 says that on the root container \<^verbatim>\<open>Stop\<close>, \<^verbatim>\<open>Pause\<close>, \<^verbatim>\<open>Resume\<close>, \<^verbatim>\<open>SetProperty\<close>
  and \<^verbatim>\<open>GetProperty\<close> fail with \<open>InvalidValue\<close> in every state and change nothing. On
  the root container as \<^verbatim>\<open>CreateRoot\<close> leaves it (\<open>Running\<close>, no task), \<^verbatim>\<open>GetProperty\<close>
  fails with \<open>InvalidProperty\<close>, and \<^verbatim>\<open>Resume\<close>, whose gate has no \<^verbatim>\<open>IsRoot()\<close> test,
  sets the state to \<open>Stopped\<close>.
\<close>

theorem root_operations_counterexample:
  "IsRoot cont_root
   \<and> GetProperty cont_root ''command''
       = Inl (TError InvalidProperty ''no properties for root container'')
   \<and> State cont_root = Running
   \<and> Resume env_ok cont_root
       = (TError InvalidValue ''invalid container state stopped'',
          cont_root\<lparr>State := Stopped\<rparr>, [])"
proof -
  have r: "IsRoot cont_root" "State cont_root = Running" "StaleRunning cont_root"
    by (simp_all add: IsRoot_def StaleRunning_def cont_root_def NewContainer_def)
  have 1: "GetProperty cont_root ''command''
       = Inl (TError InvalidProperty ''no properties for root container'')"
    using r by (simp add: GetProperty_def)
  have 2: "Resume env_ok cont_root
       = (TError InvalidValue ''invalid container state stopped'',
          cont_root\<lparr>State := Stopped\<rparr>, [])"
    using r by (simp add: Resume_def CheckState_eq InvalidStateError_def)
  from r 1 2 show ?thesis by simp
qed

text \<open>
  Claim C3, amended. On the root container, in every state, \<^verbatim>\<open>Stop\<close>, \<^verbatim>\<open>Pause\<close> and
  \<^verbatim>\<open>SetProperty\<close> fail with \<open>InvalidValue\<close> and \<^verbatim>\<open>GetProperty\<close> fails with
  \<open>InvalidProperty\<close>, and the container is unchanged. \<^verbatim>\<open>Resume\<close> fails with
  \<open>InvalidValue\<close> in every state but \<open>Paused\<close>, makes no call and leaves the name, the
  properties, the task and the leaves as they are; nothing is said of the state after
  \<^verbatim>\<open>Resume\<close>.
\<close>

theorem root_operations_rejected:
  assumes "IsRoot c"
  shows "Stop env c
       = Some (TError InvalidValue (''invalid container state '' @ ContainerStateName (State c)),
               c, [])
     \<and> Pause env c
       = (TError InvalidValue (''invalid container state '' @ ContainerStateName (State c)), c, [])
     \<and> SetProperty env c property v = (TError InvalidValue ''Can't set property for root'', c)
     \<and> GetProperty c property = Inl (TError InvalidProperty ''no properties for root container'')
     \<and> (State c \<noteq> Paused \<longrightarrow>
          (\<exists>s. Resume env c
             = (TError InvalidValue (''invalid container state '' @ ContainerStateName s),
                c\<lparr>State := s\<rparr>, [])))"
proof -
  have "\<exists>s. Resume env c
             = (TError InvalidValue (''invalid container state '' @ ContainerStateName s),
                c\<lparr>State := s\<rparr>, [])" if p: "State c \<noteq> Paused"
  proof (cases "StaleRunning c")
    case True
    with p have "Resume env c
             = (TError InvalidValue (''invalid container state '' @ ContainerStateName Stopped),
                c\<lparr>State := Stopped\<rparr>, [])"
      by (simp add: Resume_def CheckState_eq InvalidStateError_def)
    then show ?thesis by blast
  next
    case False
    with p have "Resume env c
             = (TError InvalidValue (''invalid container state '' @ ContainerStateName (State c)),
                c\<lparr>State := State c\<rparr>, [])"
      by (simp add: Resume_def CheckState_eq InvalidStateError_def)
    then show ?thesis by blast
  qed
  with assms show ?thesis
    by (simp add: Stop_def Pause_def SetProperty_def GetProperty_def InvalidStateError_def)
qed

theorem root_operations_rejected_witness:
  "IsRoot cont_root
   \<and> Stop env_ok cont_root
       = Some (TError InvalidValue ''invalid container state running'', cont_root, [])
   \<and> Pause env_ok cont_root
       = (TError InvalidValue ''invalid container state running'', cont_root, [])
   \<and> SetProperty env_ok cont_root ''command'' ''/bin/true''
       = (TError InvalidValue ''Can't set property for root'', cont_root)
   \<and> State cont_root \<noteq> Paused
   \<and> fst (Resume env_ok cont_root) = TError InvalidValue ''invalid container state stopped''"
proof -
  have r: "IsRoot cont_root" "State cont_root = Running"
    by (simp_all add: IsRoot_def cont_root_def NewContainer_def)
  have s: "StaleRunning cont_root"
    by (simp add: StaleRunning_def cont_root_def NewContainer_def)
  from root_operations_rejected [OF r(1), of env_ok "''command''" "''/bin/true''"] r
  have "Stop env_ok cont_root
       = Some (TError InvalidValue ''invalid container state running'', cont_root, [])"
    and "Pause env_ok cont_root
       = (TError InvalidValue ''invalid container state running'', cont_root, [])"
    and "SetProperty env_ok cont_root ''command'' ''/bin/true''
       = (TError InvalidValue ''Can't set property for root'', cont_root)"
    and "\<exists>s. Resume env_ok cont_root
             = (TError InvalidValue (''invalid container state '' @ ContainerStateName s),
                cont_root\<lparr>State := s\<rparr>, [])"
    by simp_all
  moreover have "fst (Resume env_ok cont_root) = TError InvalidValue ''invalid container state stopped''"
    using s by (simp add: Resume_def CheckState_eq InvalidStateError_def)
  ultimately show ?thesis using r by simp
qed

section \<open>Exit delivery\<close>

text \<open>
  Claim C4. \<^verbatim>\<open>DeliverExitStatus(pid, status)\<close> records the status in the task, moves the
  container to \<open>Dead\<close> and returns true exactly when the container is \<open>Running\<close>, has a
  task, and \<open>pid\<close> is the task's pid; otherwise it returns false and changes nothing.
  The registry passes the pair on in key order until the first container claims it:
  only that container changes, the entries after it are not visited, and when none
  claims the pid the registry is unchanged and the result is false. A container that is
  \<open>Dead\<close> at the end of a history that did not begin in \<open>Dead\<close> was \<open>Running\<close> at an
  earlier point of it.
\<close>

theorem exit_delivery:
  "DeliverExitStatus c pid status =
     (if Claims c pid
      then (True, c\<lparr>Task := map_option (Task_DeliverExitStatus status) (Task c), State := Dead\<rparr>)
      else (False, c))
   \<and> (Claims c pid \<longrightarrow>
        map_option (\<lambda>t. Status (ExitStatus t)) (Task (snd (DeliverExitStatus c pid status)))
          = Some status)
   \<and> (\<forall>pre k post. list_all (PassesOn pid) pre \<and> Claims c pid \<longrightarrow>
        Holder_DeliverExitStatus (pre @ (k, Some c) # post) pid status
          = Some (True, pre @ (k, Some (snd (DeliverExitStatus c pid status))) # post))
   \<and> (\<forall>h. list_all (PassesOn pid) h \<longrightarrow> Holder_DeliverExitStatus h pid status = Some (False, h))
   \<and> (\<forall>evs c0. Run evs c0 = Some c \<and> State c0 \<noteq> Dead \<and> State c = Dead \<longrightarrow>
        (\<exists>n c'. n < length evs \<and> Run (take n evs) c0 = Some c' \<and> State c' = Running))"
proof -
  have 1: "Claims c pid \<longrightarrow>
        map_option (\<lambda>t. Status (ExitStatus t)) (Task (snd (DeliverExitStatus c pid status)))
          = Some status"
    by (auto simp: DeliverExitStatus_eq Claims_def Task_DeliverExitStatus_def)
  show ?thesis
    using 1 DeliverExitStatus_eq [of c pid status] Holder_DeliverExitStatus_first [of pid _ c]
      Holder_DeliverExitStatus_unclaimed [of pid] Run_Dead_after_Running [of _ _ c]
    by blast
qed

theorem exit_delivery_witness:
  "Claims cont_running 42
   \<and> DeliverExitStatus cont_running 42 3 = (True, cont_dead)
   \<and> map_option (\<lambda>t. Status (ExitStatus t)) (Task cont_dead) = Some 3
   \<and> DeliverExitStatus cont_e 42 3 = (False, cont_e)
   \<and> Holder_DeliverExitStatus [(''a'', Some cont_e), (''b'', Some cont_running), (''c'', None)] 42 3
       = Some (True, [(''a'', Some cont_e), (''b'', Some cont_dead), (''c'', None)])
   \<and> Holder_DeliverExitStatus [(''a'', Some cont_e)] 42 3 = Some (False, [(''a'', Some cont_e)])
   \<and> Run [EvStart env_ok, EvDeliverExitStatus 42 3] cont_sleep
       = Some (snd (DeliverExitStatus cont_started 42 3))
   \<and> State cont_sleep \<noteq> Dead
   \<and> State (snd (DeliverExitStatus cont_started 42 3)) = Dead
   \<and> (\<exists>n c'. n < length [EvStart env_ok, EvDeliverExitStatus 42 3]
         \<and> Run (take n [EvStart env_ok, EvDeliverExitStatus 42 3]) cont_sleep = Some c'
         \<and> State c' = Running)"
proof -
  note cr = Claims_running
  have ne: "\<not> Claims cont_e 42" by (simp add: Claims_def)
  have pe: "list_all (PassesOn 42) [(''a'', Some cont_e)]"
    using ne by (simp add: PassesOn_def)
  have d: "DeliverExitStatus cont_running 42 3 = (True, cont_dead)"
    using exit_delivery [of cont_running 42 3] cr
    by (simp add: cont_dead_def cont_running_def)
  have s: "map_option (\<lambda>t. Status (ExitStatus t)) (Task cont_dead) = Some 3"
    using exit_delivery [of cont_running 42 3] cr d by simp
  have e: "DeliverExitStatus cont_e 42 3 = (False, cont_e)"
    using exit_delivery [of cont_e 42 3] ne by simp
  have "\<forall>pre k post. list_all (PassesOn 42) pre \<and> Claims cont_running 42 \<longrightarrow>
        Holder_DeliverExitStatus (pre @ (k, Some cont_running) # post) 42 3
          = Some (True, pre @ (k, Some (snd (DeliverExitStatus cont_running 42 3))) # post)"
    using exit_delivery [of cont_running 42 3] by blast
  then have "list_all (PassesOn 42) [(''a'', Some cont_e)] \<and> Claims cont_running 42 \<longrightarrow>
        Holder_DeliverExitStatus
          ([(''a'', Some cont_e)] @ (''b'', Some cont_running) # [(''c'', None)]) 42 3
          = Some (True, [(''a'', Some cont_e)]
              @ (''b'', Some (snd (DeliverExitStatus cont_running 42 3))) # [(''c'', None)])"
    by blast
  with pe cr d have h1: "Holder_DeliverExitStatus
       [(''a'', Some cont_e), (''b'', Some cont_running), (''c'', None)] 42 3
       = Some (True, [(''a'', Some cont_e), (''b'', Some cont_dead), (''c'', None)])"
    by simp
  have h2: "Holder_DeliverExitStatus [(''a'', Some cont_e)] 42 3 = Some (False, [(''a'', Some cont_e)])"
    using exit_delivery [of cont_e 42 3] pe by blast
  let ?cN = "snd (DeliverExitStatus cont_started 42 3)"
  have r: "Run [EvStart env_ok, EvDeliverExitStatus 42 3] cont_sleep = Some ?cN"
    by (simp add: Start_sleep)
  have sN: "State ?cN = Dead"
    using Claims_started by (simp add: DeliverExitStatus_eq)
  have s0: "State cont_sleep \<noteq> Dead" by simp
  have t: "\<exists>n c'. n < length [EvStart env_ok, EvDeliverExitStatus 42 3]
         \<and> Run (take n [EvStart env_ok, EvDeliverExitStatus 42 3]) cont_sleep = Some c'
         \<and> State c' = Running"
    using exit_delivery [of ?cN 42 3] r s0 sN by blast
  from cr d s e h1 h2 r s0 sN t show ?thesis by simp
qed

section \<open>The acknowledged start after a restart\<close>

text \<open>
  Claim C7. A container restored as \<open>Running\<close> from a persisted pid has the flag
  \<^verbatim>\<open>MaybeReturnedOk\<close> set. On a \<open>Running\<close> container with the flag set, \<^verbatim>\<open>Start\<close> returns
  success, makes no call (no cgroup is created, no task is started), leaves the state
  as it is and clears the flag. The flag is one-shot: with the flag cleared, \<^verbatim>\<open>Start\<close> in
  any environment is the gate on \<open>Stopped\<close> followed by the body, and on a container
  whose task is still running it fails with \<^verbatim>\<open>invalid container state running\<close>. (The
  kind of that error is \<open>InvalidValue\<close>.)
\<close>

theorem acknowledged_start:
  "(State c = Running \<and> MaybeReturnedOk c \<longrightarrow>
      Start env c = Some (TError_Success, c\<lparr>MaybeReturnedOk := False\<rparr>, []))
   \<and> Start env' (c\<lparr>MaybeReturnedOk := False\<rparr>) =
       (case CheckState (c\<lparr>MaybeReturnedOk := False\<rparr>) Stopped of
          (False, c1) \<Rightarrow> Some (InvalidStateError c1, c1, [])
        | (True, c1) \<Rightarrow> StartBody env' c1)
   \<and> (State c = Running \<and> \<not> StaleRunning c \<longrightarrow>
        Start env' (c\<lparr>MaybeReturnedOk := False\<rparr>)
          = Some (TError InvalidValue ''invalid container state running'',
                  c\<lparr>MaybeReturnedOk := False\<rparr>, []))
   \<and> (\<forall>env0 node c0 e0 s pid e t.
         SpecRestore env0 (Spec c0) node = (e0, s) \<and> \<not> failed e0 \<and>
         RestoredPid env0 s = Some pid \<and> Restore env0 node c0 = Some (e, c, t) \<and>
         State c = Running \<longrightarrow> MaybeReturnedOk c \<and> e = TError_Success)"
proof -
  have 1: "State c = Running \<and> MaybeReturnedOk c \<longrightarrow>
      Start env c = Some (TError_Success, c\<lparr>MaybeReturnedOk := False\<rparr>, [])"
    by (simp add: Start_def)
  have 2: "Start env' (c\<lparr>MaybeReturnedOk := False\<rparr>) =
       (case CheckState (c\<lparr>MaybeReturnedOk := False\<rparr>) Stopped of
          (False, c1) \<Rightarrow> Some (InvalidStateError c1, c1, [])
        | (True, c1) \<Rightarrow> StartBody env' c1)"
    by (simp add: Start_def)
  have 3: "State c = Running \<and> \<not> StaleRunning c \<longrightarrow>
        Start env' (c\<lparr>MaybeReturnedOk := False\<rparr>)
          = Some (TError InvalidValue ''invalid container state running'',
                  c\<lparr>MaybeReturnedOk := False\<rparr>, [])"
    by (simp add: Start_def CheckState_eq InvalidStateError_def)
  from 1 2 3 Restore_Running_flag [where c = c] show ?thesis by blast
qed

theorem acknowledged_start_witness:
  "Restore env_restore [] cont_e
     = Some (TError_Success, cont_started\<lparr>MaybeReturnedOk := True\<rparr>,
             calls_e @ [ActTaskRestore 42])
   \<and> State (cont_started\<lparr>MaybeReturnedOk := True\<rparr>) = Running
   \<and> MaybeReturnedOk (cont_started\<lparr>MaybeReturnedOk := True\<rparr>)
   \<and> Start env_ok (cont_started\<lparr>MaybeReturnedOk := True\<rparr>)
       = Some (TError_Success, cont_started, [])
   \<and> \<not> StaleRunning cont_started
   \<and> Start env_ok cont_started
       = Some (TError InvalidValue ''invalid container state running'', cont_started, [])"
proof -
  let ?c = "cont_started\<lparr>MaybeReturnedOk := True\<rparr>"
  have f: "?c\<lparr>MaybeReturnedOk := False\<rparr> = cont_started"
    by (simp add: cont_started_def cont_sleep_def cont_e_def NewContainer_def)
  have s: "State ?c = Running" "MaybeReturnedOk ?c" "\<not> StaleRunning ?c"
    by (simp_all add: cont_started_def StaleRunning_def task_e_def)
  have n: "\<not> StaleRunning cont_started"
    by (simp add: cont_started_def StaleRunning_def task_e_def)
  have 1: "Start env_ok ?c = Some (TError_Success, cont_started, [])"
    using acknowledged_start [of ?c env_ok env_ok] s f by simp
  have "State ?c = Running \<and> \<not> StaleRunning ?c \<longrightarrow>
        Start env_ok (?c\<lparr>MaybeReturnedOk := False\<rparr>)
          = Some (TError InvalidValue ''invalid container state running'',
                  ?c\<lparr>MaybeReturnedOk := False\<rparr>, [])"
    using acknowledged_start [of ?c env_ok env_ok] by blast
  with s have 2: "Start env_ok cont_started
       = Some (TError InvalidValue ''invalid container state running'', cont_started, [])"
    unfolding f by blast
  from Restore_sample s 1 n 2 show ?thesis by simp
qed

section \<open>Restore without a persisted pid\<close>

text \<open>
  Claim C8 says that, when the slot \<^verbatim>\<open>root_pid\<close> is absent or does not parse, \<^verbatim>\<open>Restore\<close>
  kills and starts again if a process is alive in the freezer leaf, and otherwise kills
  defensively and leaves the container \<open>Stopped\<close>. \<^verbatim>\<open>IsAlive\<close> holds of the root
  container whatever its leaf contains: the root container with no pid and an empty
  leaf is started and ends \<open>Running\<close>.
\<close>

theorem restore_without_pid_counterexample:
  "RestoredPid env_ok (Spec cont_root) = None
   \<and> Processes env_ok (cont_root\<lparr>State := Stopped\<rparr>) = []
   \<and> map_option (\<lambda>r. (fst r, State (fst (snd r)))) (Restore env_ok [] cont_root)
       = Some (TError_Success, Running)"
proof -
  let ?c1 = "cont_root\<lparr>Spec := Spec cont_root, State := Stopped\<rparr>"
  have rp: "RestoredPid env_ok (Spec cont_root) = None"
    by (simp add: RestoredPid_def cont_root_def NewContainer_def spec_empty_def)
  have root: "IsRoot ?c1" by (simp add: IsRoot_def cont_root_def NewContainer_def)
  have al: "IsAlive env_ok ?c1" using root by (simp add: IsAlive_def)
  have cs: "CheckState (?c1\<lparr>MaybeReturnedOk := False\<rparr>) Stopped = (True, ?c1)"
    by (simp add: CheckState_eq StaleRunning_def cont_root_def NewContainer_def)
  have pcs: "\<not> failed (fst (PrepareCgroups env_ok ?c1))"
    unfolding PrepareCgroups_env_ok_success by simp
  from StartBody_root [OF root pcs] obtain c' t where
    sb: "StartBody env_ok ?c1 = Some (TError_Success, c', t)" and st: "State c' = Running"
    by blast
  have "Start env_ok ?c1 = Some (TError_Success, c', t)"
    using cs sb by (simp add: Start_def)
  with rp al st have "map_option (\<lambda>r. (fst r, State (fst (snd r)))) (Restore env_ok [] cont_root)
       = Some (TError_Success, Running)"
    by (simp add: Restore_def split: prod.splits)
  with rp show ?thesis by (simp add: Processes_def)
qed

text \<open>
  Claim C8, amended. When the slot \<^verbatim>\<open>root_pid\<close> is absent or does not parse: if the
  container is the root container or a process is alive in its freezer leaf, \<^verbatim>\<open>Restore\<close>
  runs \<^verbatim>\<open>KillAll\<close> on the leaf, then \<^verbatim>\<open>Start\<close> on the container (\<open>Stopped\<close>, with the
  restored properties), and returns the result of \<^verbatim>\<open>Start\<close>; if the container is not
  the root container and no process is alive in the leaf, it runs \<^verbatim>\<open>KillAll\<close> and
  returns success with the container \<open>Stopped\<close>. \<^verbatim>\<open>KillAll\<close>, when both reads of the task
  list succeed, sends \<^verbatim>\<open>SIGTERM\<close>, waits, freezes, sends \<^verbatim>\<open>SIGKILL\<close> and unfreezes.
\<close>

theorem restore_without_pid:
  assumes "SpecRestore env (Spec c) node = (e0, s)" and "\<not> failed e0"
    and "RestoredPid env s = None"
  shows "let c1 = c\<lparr>Spec := s, State := Stopped\<rparr>; cg = GetLeafCgroup c1 FreezerSubsystem in
     IsAlive env c1 = (IsRoot c \<or> Processes env c1 \<noteq> [])
     \<and> (IsAlive env c1 \<longrightarrow>
          (\<exists>e c' t. Start env c1 = Some (e, c', t) \<and>
             Restore env node c = Some (e, c', snd (KillAll env c1) @ t)))
     \<and> (\<not> IsRoot c \<and> Processes env c1 = [] \<longrightarrow>
          Restore env node c = Some (TError_Success, c1, snd (KillAll env c1)))
     \<and> (\<not> failed (GetTasks env 0 cg) \<and> \<not> failed (GetTasks env 1 cg) \<longrightarrow>
          snd (KillAll env c1)
            = [ActKill cg SIGTERM, ActSleepWhileNotEmpty cg 1000, ActFreeze cg,
               ActKill cg SIGKILL, ActUnfreeze cg])"
proof -
  let ?c1 = "c\<lparr>Spec := s, State := Stopped\<rparr>"
  have a: "IsAlive env ?c1 = (IsRoot c \<or> Processes env ?c1 \<noteq> [])"
    by (simp add: IsAlive_def IsRoot_def)
  have b: "\<exists>e c' t. Start env ?c1 = Some (e, c', t) \<and>
             Restore env node c = Some (e, c', snd (KillAll env ?c1) @ t)" if "IsAlive env ?c1"
  proof -
    from Start_total [of env ?c1] obtain e c' t where st: "Start env ?c1 = Some (e, c', t)"
      by blast
    with assms that have "Restore env node c = Some (e, c', snd (KillAll env ?c1) @ t)"
      by (simp add: Restore_def split: prod.splits)
    with st show ?thesis by blast
  qed
  have d: "Restore env node c = Some (TError_Success, ?c1, snd (KillAll env ?c1))"
    if "\<not> IsRoot c \<and> Processes env ?c1 = []"
    using assms that a by (simp add: Restore_def Let_def split: prod.splits)
  have k: "snd (KillAll env ?c1)
            = [ActKill (GetLeafCgroup ?c1 FreezerSubsystem) SIGTERM,
               ActSleepWhileNotEmpty (GetLeafCgroup ?c1 FreezerSubsystem) 1000,
               ActFreeze (GetLeafCgroup ?c1 FreezerSubsystem),
               ActKill (GetLeafCgroup ?c1 FreezerSubsystem) SIGKILL,
               ActUnfreeze (GetLeafCgroup ?c1 FreezerSubsystem)]"
    if "\<not> failed (GetTasks env 0 (GetLeafCgroup ?c1 FreezerSubsystem)) \<and>
        \<not> failed (GetTasks env 1 (GetLeafCgroup ?c1 FreezerSubsystem))"
    using that by (simp add: KillAll_ok)
  from a b d k show ?thesis unfolding Let_def by blast
qed

theorem restore_without_pid_witness:
  "SpecRestore env_ok (Spec cont_e) [] = (TError_Success, spec_empty)
   \<and> RestoredPid env_ok spec_empty = None
   \<and> Processes env_ok cont_e = []
   \<and> Restore env_ok [] cont_e = Some (TError_Success, cont_e, kill_e)
   \<and> SpecRestore env_alive (Spec cont_e) [] = (TError_Success, spec_sleep)
   \<and> RestoredPid env_alive spec_sleep = None
   \<and> Processes env_alive cont_sleep = [7]
   \<and> Restore env_alive [] cont_e
       = Some (TError_Success, cont_started, kill_e @ calls_e @ [ActTaskStart])"
proof -
  have c1: "cont_e\<lparr>Spec := spec_empty, State := Stopped\<rparr> = cont_e"
    by (simp add: cont_e_def NewContainer_def)
  have c2: "cont_e\<lparr>Spec := spec_sleep, State := Stopped\<rparr> = cont_sleep"
    by (simp add: cont_sleep_def cont_e_def NewContainer_def spec_sleep_def)
  have s1: "SpecRestore env_ok (Spec cont_e) [] = (TError_Success, spec_empty)" by simp
  have r1: "RestoredPid env_ok spec_empty = None"
    by (simp add: RestoredPid_def spec_empty_def)
  have p1: "Processes env_ok cont_e = []" by (simp add: Processes_def)
  have k1: "KillAll env_ok cont_e = (TError_Success, kill_e)"
    by (rule KillAll_e) simp_all
  have "\<not> IsRoot cont_e \<and> Processes env_ok cont_e = [] \<longrightarrow>
      Restore env_ok [] cont_e = Some (TError_Success, cont_e, snd (KillAll env_ok cont_e))"
    using restore_without_pid [OF s1 _ r1] unfolding Let_def c1 by simp
  with p1 k1 have a: "Restore env_ok [] cont_e = Some (TError_Success, cont_e, kill_e)"
    by (simp add: not_root_e)
  have s2: "SpecRestore env_alive (Spec cont_e) [] = (TError_Success, spec_sleep)"
    by (simp add: env_alive_fields)
  have r2: "RestoredPid env_alive spec_sleep = None"
    by (simp add: RestoredPid_def spec_sleep_def spec_empty_def)
  have p2: "Processes env_alive cont_sleep = [7]"
    by (simp add: Processes_def env_alive_fields)
  have k2: "KillAll env_alive cont_sleep = (TError_Success, kill_e)"
    by (rule KillAll_e) (simp_all add: env_alive_fields)
  have st: "Start env_alive cont_sleep
      = Some (TError_Success, cont_started, calls_e @ [ActTaskStart])"
    unfolding Start_cong [OF env_alive_fields(1-7)] by (rule Start_sleep)
  have al: "IsAlive env_alive cont_sleep" by (simp add: IsAlive_def p2)
  have "IsAlive env_alive cont_sleep \<longrightarrow>
          (\<exists>e c' t. Start env_alive cont_sleep = Some (e, c', t) \<and>
             Restore env_alive [] cont_e = Some (e, c', snd (KillAll env_alive cont_sleep) @ t))"
    using restore_without_pid [OF s2 _ r2] unfolding Let_def c2 by simp
  with al st k2 have b: "Restore env_alive [] cont_e
       = Some (TError_Success, cont_started, kill_e @ calls_e @ [ActTaskStart])"
    by auto
  from s1 r1 p1 a s2 r2 p2 b show ?thesis by simp
qed

section \<open>A failing Start\<close>

text \<open>
  Claim C2 says that after a failing \<^verbatim>\<open>Start\<close> the leaves created are removed and
  \<^verbatim>\<open>LeafCgroups\<close> is empty. \<^verbatim>\<open>Start\<close> clears \<^verbatim>\<open>LeafCgroups\<close> when a leaf cannot be created
  and when the task cannot be started, not on its other failing returns. For every
  \<open>Stopped\<close> container other than the root container whose command is empty, in every
  environment in which the cgroups are prepared, \<^verbatim>\<open>Start\<close> returns
  \<^verbatim>\<open>container command is empty\<close>, the state is \<open>Stopped\<close>, and \<^verbatim>\<open>LeafCgroups\<close> holds a
  leaf for each of the three subsystems.
\<close>

theorem Start_failure_keeps_leaves:
  assumes "State c = Stopped" and "\<not> IsRoot c" and "Data (Spec c) ''command'' = []"
    and "\<not> failed (fst (PrepareCgroups env (c\<lparr>MaybeReturnedOk := False\<rparr>)))"
  shows "\<exists>c' t. Start env c
           = Some (TError InvalidValue ''container command is empty'', c', t)
         \<and> State c' = Stopped
         \<and> LeafCgroups c' CpuacctSubsystem \<noteq> None \<and> LeafCgroups c' MemorySubsystem \<noteq> None
         \<and> LeafCgroups c' FreezerSubsystem \<noteq> None"
proof -
  let ?c0 = "c\<lparr>MaybeReturnedOk := False\<rparr>"
  obtain e2 c2 t2 where pc: "PrepareCgroups env ?c0 = (e2, c2, t2)"
    by (cases "PrepareCgroups env ?c0")
  with assms(4) have ok: "\<not> failed e2" by simp
  have st: "State c2 = Stopped" using PrepareCgroups_State [OF pc] assms(1) by simp
  have nr: "\<not> IsRoot c2" using PrepareCgroups_Name [OF pc] assms(2) by (simp add: IsRoot_def)
  obtain l where c2: "c2 = ?c0\<lparr>LeafCgroups := l\<rparr>"
    using PrepareCgroups_frame [of env ?c0] pc by auto
  then have cmd: "Data (Spec c2) ''command'' = []" using assms(3) by simp
  have cs: "CheckState ?c0 Stopped = (True, ?c0)"
    using assms(1) by (simp add: CheckState_eq StaleRunning_def)
  have "Start env c = Some (TError InvalidValue ''container command is empty'', c2, t2)"
    using assms(1) cs pc ok nr cmd by (simp add: Start_def StartBody_def)
  with st PrepareCgroups_leaves [OF pc ok] show ?thesis by blast
qed

theorem Start_failure_keeps_leaves_witness:
  "State cont_e = Stopped \<and> \<not> IsRoot cont_e \<and> Data (Spec cont_e) ''command'' = []
   \<and> Start env_ok cont_e
       = Some (TError InvalidValue ''container command is empty'',
               cont_e\<lparr>LeafCgroups := leaves_e\<rparr>, calls_e)
   \<and> LeafCgroups (cont_e\<lparr>LeafCgroups := leaves_e\<rparr>) MemorySubsystem
       = Some (leaf_e MemorySubsystem)
   \<and> (\<exists>c' t. Start env_ok cont_e
           = Some (TError InvalidValue ''container command is empty'', c', t)
         \<and> State c' = Stopped
         \<and> LeafCgroups c' CpuacctSubsystem \<noteq> None \<and> LeafCgroups c' MemorySubsystem \<noteq> None
         \<and> LeafCgroups c' FreezerSubsystem \<noteq> None)"
proof -
  have a: "State cont_e = Stopped" "\<not> IsRoot cont_e" "Data (Spec cont_e) ''command'' = []"
    by (simp_all add: not_root_e spec_empty_def)
  have p: "\<not> failed (fst (PrepareCgroups env_ok (cont_e\<lparr>MaybeReturnedOk := False\<rparr>)))"
    unfolding PrepareCgroups_env_ok_success by simp
  have cs: "CheckState (cont_e\<lparr>MaybeReturnedOk := False\<rparr>) Stopped = (True, cont_e)"
    by (simp add: CheckState_eq StaleRunning_def cont_e_def NewContainer_def)
  have s: "Start env_ok cont_e
       = Some (TError InvalidValue ''container command is empty'',
               cont_e\<lparr>LeafCgroups := leaves_e\<rparr>, calls_e)"
    using cs by (simp add: Start_def StartBody_empty_command)
  have l: "LeafCgroups (cont_e\<lparr>LeafCgroups := leaves_e\<rparr>) MemorySubsystem
       = Some (leaf_e MemorySubsystem)"
    by (simp add: leaves_e_def)
  from a s l Start_failure_keeps_leaves [OF a p] show ?thesis by blast
qed

section \<open>Creation in the registry\<close>

text \<open>
  Claim C9 says that \<^verbatim>\<open>Create(name)\<close> succeeds exactly when the name is not registered
  and is the reserved name or well formed. A well-formed name that is not registered is
  still refused when the persistence layer cannot create the record of the container.
\<close>

theorem Holder_Create_counterexample:
  "WellFormedName ''a'' \<and> Holder_Get [] ''a'' = None
   \<and> Holder_Create env_nopersist [] ''a'' = (TError Unknown ''cannot create record'', [(''a'', None)])"
proof -
  have w: "WellFormedName ''a''" by (simp add: WellFormedName_def NameChars_def)
  then have v: "ValidName ''a''" by (simp add: ValidName_iff)
  have g: "Holder_Get [] ''a'' = None" by (simp add: Holder_Get_def)
  have f: "SpecCreate env_nopersist s = TError Unknown ''cannot create record''" for s
    by (simp add: env_nopersist_def)
  from w v g show ?thesis by (simp add: Holder_Create_eq f)
qed

text \<open>
  Claim C9, amended. \<^verbatim>\<open>Create(name)\<close> succeeds exactly when no container is registered
  under the name, the name is the reserved name or is well formed (not empty, at most
  128 characters, letters, digits and the underscore only), and the record of the new
  container can be created. For a malformed name and for a name that is registered it
  fails with \<open>InvalidValue\<close>; when the name passes both tests and the record cannot be
  created, it returns the error of the creation of the record (\<^verbatim>\<open>c->Create()\<close>). On
  success the name is registered with a new container, whose state is \<open>Stopped\<close>.
\<close>

theorem Holder_Create_succeeds_iff:
  "(\<not> failed (fst (Holder_Create env h name)) \<longleftrightarrow>
      Holder_Get h name = None \<and> (name = ROOT_CONTAINER \<or> WellFormedName name) \<and>
      \<not> failed (SpecCreate env (SpecInit env name)))
   \<and> (\<not> (name = ROOT_CONTAINER \<or> WellFormedName name) \<longrightarrow>
        fst (Holder_Create env h name) = TError InvalidValue (''invalid container name '' @ name))
   \<and> ((name = ROOT_CONTAINER \<or> WellFormedName name) \<and> Holder_Get h name \<noteq> None \<longrightarrow>
        fst (Holder_Create env h name)
          = TError InvalidValue (''container '' @ name @ '' already exists''))
   \<and> (\<not> failed (fst (Holder_Create env h name)) \<longrightarrow>
        Holder_Get (snd (Holder_Create env h name)) name = Some (NewContainer env name) \<and>
        State (NewContainer env name) = Stopped)
   \<and> ((name = ROOT_CONTAINER \<or> WellFormedName name) \<and> Holder_Get h name = None \<and>
        failed (Create env (NewContainer env name)) \<longrightarrow>
        fst (Holder_Create env h name) = Create env (NewContainer env name))"
  by (simp add: Holder_Create_eq ValidName_iff [symmetric] Holder_Get_map_assign NewContainer_def
      Create_def)

theorem Holder_Create_succeeds_iff_witness:
  "WellFormedName ''a'' \<and> Holder_Get [] ''a'' = None
   \<and> \<not> failed (SpecCreate env_ok (SpecInit env_ok ''a''))
   \<and> Holder_Create env_ok [] ''a'' = (TError_Success, [(''a'', Some (NewContainer env_ok ''a''))])
   \<and> \<not> WellFormedName ''a-b'' \<and> ''a-b'' \<noteq> ROOT_CONTAINER
   \<and> fst (Holder_Create env_ok [] ''a-b'') = TError InvalidValue ''invalid container name a-b''
   \<and> Holder_Get [(''a'', Some cont_e)] ''a'' \<noteq> None
   \<and> fst (Holder_Create env_ok [(''a'', Some cont_e)] ''a'')
       = TError InvalidValue ''container a already exists''
   \<and> WellFormedName ''b'' \<and> Holder_Get [(''a'', Some cont_e)] ''b'' = None
   \<and> failed (Create env_nopersist (NewContainer env_nopersist ''b''))
   \<and> fst (Holder_Create env_nopersist [(''a'', Some cont_e)] ''b'')
       = TError Unknown ''cannot create record''"
proof -
  have w: "WellFormedName ''a''" by (simp add: WellFormedName_def NameChars_def)
  have wb: "WellFormedName ''b''" by (simp add: WellFormedName_def NameChars_def)
  have gb: "Holder_Get [(''a'', Some cont_e)] ''b'' = None" by (simp add: Holder_Get_def)
  have cb: "Create env_nopersist (NewContainer env_nopersist ''b'')
      = TError Unknown ''cannot create record''"
    by (simp add: Create_def env_nopersist_def)
  then have fb: "failed (Create env_nopersist (NewContainer env_nopersist ''b''))" by simp
  have "fst (Holder_Create env_nopersist [(''a'', Some cont_e)] ''b'')
      = Create env_nopersist (NewContainer env_nopersist ''b'')"
    using Holder_Create_succeeds_iff
      [where env = env_nopersist and h = "[(''a'', Some cont_e)]" and name = "''b''"] wb gb fb
    by blast
  then have 4: "fst (Holder_Create env_nopersist [(''a'', Some cont_e)] ''b'')
      = TError Unknown ''cannot create record''"
    unfolding cb .
  have g: "Holder_Get [] ''a'' = None" by (simp add: Holder_Get_def)
  have p: "\<not> failed (SpecCreate env_ok (SpecInit env_ok ''a''))" by simp
  have "\<not> failed (fst (Holder_Create env_ok [] ''a''))"
    using Holder_Create_succeeds_iff [where env = env_ok and h = "[]" and name = "''a''"] w g p by blast
  then have 1: "Holder_Create env_ok [] ''a''
      = (TError_Success, [(''a'', Some (NewContainer env_ok ''a''))])"
    by (simp add: Holder_Create_eq split: if_splits)
  have nw: "\<not> WellFormedName ''a-b''" "''a-b'' \<noteq> ROOT_CONTAINER"
    by (simp_all add: WellFormedName_def NameChars_def ROOT_CONTAINER_def)
  have 2: "fst (Holder_Create env_ok [] ''a-b'') = TError InvalidValue ''invalid container name a-b''"
    using Holder_Create_succeeds_iff [where env = env_ok and h = "[]" and name = "''a-b''"] nw by simp
  have g3: "Holder_Get [(''a'', Some cont_e)] ''a'' \<noteq> None" by (simp add: Holder_Get_def)
  have 3: "fst (Holder_Create env_ok [(''a'', Some cont_e)] ''a'')
       = TError InvalidValue ''container a already exists''"
    using Holder_Create_succeeds_iff [where env = env_ok and h = "[(''a'', Some cont_e)]" and name = "''a''"] w g3 by simp
  from w g p 1 nw 2 g3 3 wb gb fb 4 show ?thesis by simp
qed

section \<open>Null entries in the registry\<close>

text \<open>
  Claim C10 says that every entry of the registry holds a container and that a failing
  \<^verbatim>\<open>Create\<close> leaves no entry behind. The test \<^verbatim>\<open>Containers[name] == nullptr\<close> inserts a
  null entry for an absent name, and the return after a failing \<^verbatim>\<open>c->Create()\<close> leaves it
  there: for every valid name that is absent and every environment whose persistence
  layer refuses the record, the registry after \<^verbatim>\<open>Create\<close> maps the name to a null
  pointer, and \<^verbatim>\<open>List\<close>, \<^verbatim>\<open>Heartbeat\<close> and (when no container claims the pid)
  \<^verbatim>\<open>DeliverExitStatus\<close> dereference it.
\<close>

theorem Create_failure_leaves_null_entry:
  assumes "ValidName name" and "map_of h name = None"
    and "failed (SpecCreate env (SpecInit env name))"
  shows "Holder_Create env h name = (SpecCreate env (SpecInit env name), map_assign name None h)
     \<and> map_of (map_assign name None h) name = Some None
     \<and> Holder_List (map_assign name None h) = None
     \<and> Holder_Heartbeat env' (map_assign name None h) = None
     \<and> (list_all (PassesOn pid) h \<longrightarrow>
          Holder_DeliverExitStatus (map_assign name None h) pid status = None)"
proof -
  from assms(2) have "Holder_Get h name = None" by (simp add: Holder_Get_def)
  with assms show ?thesis
    by (simp add: Holder_Create_eq map_of_map_assign Holder_List_null Holder_Heartbeat_null
        Holder_DeliverExitStatus_null)
qed

theorem Create_failure_leaves_null_entry_witness:
  "ValidName ''a'' \<and> map_of [(''b'', Some cont_e)] ''a'' = None
   \<and> failed (SpecCreate env_nopersist (SpecInit env_nopersist ''a''))
   \<and> Holder_Create env_nopersist [(''b'', Some cont_e)] ''a''
       = (TError Unknown ''cannot create record'', [(''a'', None), (''b'', Some cont_e)])
   \<and> Holder_List [(''a'', None), (''b'', Some cont_e)] = None
   \<and> Holder_Heartbeat env_ok [(''a'', None), (''b'', Some cont_e)] = None
   \<and> Holder_DeliverExitStatus [(''a'', None), (''b'', Some cont_e)] 42 3 = None"
proof -
  have v: "ValidName ''a''" by (simp add: ValidName_iff WellFormedName_def NameChars_def)
  have m: "map_of [(''b'', Some cont_e)] ''a'' = None" by simp
  have f: "SpecCreate env_nopersist s = TError Unknown ''cannot create record''" for s
    by (simp add: env_nopersist_def)
  have ff: "failed (SpecCreate env_nopersist (SpecInit env_nopersist ''a''))"
    by (simp add: f)
  have a: "map_assign ''a'' None [(''b'', Some cont_e)] = [(''a'', None), (''b'', Some cont_e)]"
    by simp
  have p: "list_all (PassesOn 42) [(''b'', Some cont_e)]"
    by (simp add: PassesOn_def Claims_def)
  from Create_failure_leaves_null_entry
    [OF v m ff, where env' = env_ok and pid = 42 and status = 3] p
  show ?thesis unfolding a f using v m by simp
qed

end
